theory Spec2Isabelle
  imports Main "HOL-Library.AList"
begin

section \<open>The interface state of App.tsx\<close>

text \<open>
  The component keeps its working copies in typed React state: \<open>feedPosts : FeedPost[]\<close>,
  \<open>userPosts : ProfilePost[]\<close> and \<open>dmMessages : DMMessage[]\<close>. The TypeScript types
  become records; an optional field \<open>f?: T\<close> is a \<open>T option\<close> (\<open>None\<close> when the field is
  \<open>undefined\<close>). A \<open>number\<close> is an \<open>int\<close>: the counters are integers, and \<open>+ 1\<close> and \<open>- 1\<close> on
  them are exact in the runtime's doubles for counters below \<open>2^53\<close>; a property that depends
  on the exact value carries that bound. Field names that are Isar keywords are prefixed
  (\<open>from\<close>, \<open>to\<close>, \<open>text\<close> of a reply or comment; \<open>id\<close> of a profile post).
\<close>

datatype error = TypeError | RangeError | SyntaxError | HostError string

record FeedViewerProfile =
  viewer_name :: string
  avatar_char :: "string option"
  user_handle :: "string option"
  posts_count :: "int option"
  followers_count :: "int option"
  following_count :: "int option"

record FeedPostUser =
  name :: string
  handle :: string
  avatar_icon :: "string option"
  avatar_bg :: "string option"

record FeedPostStats =
  comments :: "int option"
  likes :: "int option"
  is_liked_by_viewer :: "bool option"

type_synonym ProfilePostStats = FeedPostStats

record FeedPostReply =
  reply_from :: string
  reply_to :: "string option"
  reply_avatar :: "string option"
  reply_text :: string

record FeedPostComment =
  author :: string
  comment_handle :: "string option"
  comment_avatar :: "string option"
  comment_text :: string
  replies :: "FeedPostReply list option"

record FeedPost =
  user :: FeedPostUser
  body :: string
  tags :: "string list option"
  image_caption :: "string option"
  stats :: FeedPostStats
  people_comments :: "FeedPostComment list option"

record ProfilePostComment =
  comment_id :: "string option"
  user_name :: string
  pc_avatar :: "string option"
  pc_text :: string

record ProfilePost =
  post_id :: string
  post_body :: string
  post_image_caption :: "string option"
  post_stats :: ProfilePostStats
  comments_data :: "ProfilePostComment list option"

record DMMessage =
  sender_handle :: string
  content :: string
  is_read :: "bool option"
  timestamp :: "string option"

text \<open>\<open>x ?? d\<close> on an optional field.\<close>

definition nullish :: "'a option \<Rightarrow> 'a \<Rightarrow> 'a" where
  "nullish x d = (case x of None \<Rightarrow> d | Some v \<Rightarrow> v)"

text \<open>\<open>xs.map((item, idx) => f(item, idx))\<close> and \<open>xs.filter((item, idx) => p(item, idx))\<close>,
  with the index the callback receives.\<close>

fun map_idx :: "('a \<Rightarrow> nat \<Rightarrow> 'b) \<Rightarrow> nat \<Rightarrow> 'a list \<Rightarrow> 'b list" where
  "map_idx f i [] = []"
| "map_idx f i (x # xs) = f x i # map_idx f (Suc i) xs"

fun filter_idx :: "('a \<Rightarrow> nat \<Rightarrow> bool) \<Rightarrow> nat \<Rightarrow> 'a list \<Rightarrow> 'a list" where
  "filter_idx p i [] = []"
| "filter_idx p i (x # xs) = (if p x i then x # filter_idx p (Suc i) xs else filter_idx p (Suc i) xs)"

text \<open>\<open>xs[i]\<close> of the runtime: \<open>undefined\<close> out of range.\<close>

definition at_index :: "'a list \<Rightarrow> nat \<Rightarrow> 'a option" where
  "at_index xs i = (if i < length xs then Some (xs ! i) else None)"

subsection \<open>Like toggles (lines 1011-1105)\<close>

text \<open>The state updater of \<open>toggleFeedLike\<close>: \<open>setFeedPosts((prev) => prev.map(...))\<close>.\<close>

definition toggleFeedLike :: "nat \<Rightarrow> FeedPost list \<Rightarrow> FeedPost list" where
  "toggleFeedLike index prev =
     map_idx (\<lambda>post idx.
       if idx \<noteq> index then post
       else
         let isLiked = nullish (is_liked_by_viewer (stats post)) False;
             likes = nullish (likes (stats post)) 0
         in post\<lparr>stats := (stats post)\<lparr>
              is_liked_by_viewer := Some (\<not> isLiked),
              likes := Some (max 0 (if isLiked then likes - 1 else likes + 1))\<rparr>\<rparr>) 0 prev"

text \<open>The state updaters of \<open>toggleUserLike\<close> and \<open>toggleProfileLike\<close>, both on \<open>userPosts\<close>.\<close>

definition toggleUserLike :: "nat \<Rightarrow> ProfilePost list \<Rightarrow> ProfilePost list" where
  "toggleUserLike index prev =
     map_idx (\<lambda>post idx.
       if idx \<noteq> index then post
       else
         let isLiked = nullish (is_liked_by_viewer (post_stats post)) False;
             likes = nullish (likes (post_stats post)) 0
         in post\<lparr>post_stats := (post_stats post)\<lparr>
              is_liked_by_viewer := Some (\<not> isLiked),
              likes := Some (max 0 (if isLiked then likes - 1 else likes + 1))\<rparr>\<rparr>) 0 prev"

definition toggleProfileLike :: "nat \<Rightarrow> ProfilePost list \<Rightarrow> ProfilePost list" where
  "toggleProfileLike index prev =
     map_idx (\<lambda>post idx.
       if idx \<noteq> index then post
       else
         let isLiked = nullish (is_liked_by_viewer (post_stats post)) False;
             likes = nullish (likes (post_stats post)) 0
         in post\<lparr>post_stats := (post_stats post)\<lparr>
              is_liked_by_viewer := Some (\<not> isLiked),
              likes := Some (max 0 (if isLiked then likes - 1 else likes + 1))\<rparr>\<rparr>) 0 prev"

text \<open>
  The mutator the three toggles hand to \<open>updateStatData\<close> rewrites the stats object found
  at the post's path (\<open>{}\<close> when there is none) in the same way; \<open>!!x\<close> of an optional
  boolean is \<open>x ?? false\<close>, and \<open>Number\<close> of a number is that number.
\<close>

definition toggleLikeStatData :: "FeedPostStats \<Rightarrow> FeedPostStats" where
  "toggleLikeStatData stats0 =
     (let isLiked = nullish (is_liked_by_viewer stats0) False;
          likes = nullish (likes stats0) 0
      in stats0\<lparr>is_liked_by_viewer := Some (\<not> isLiked),
                likes := Some (max 0 (if isLiked then likes - 1 else likes + 1))\<rparr>)"

subsection \<open>Strings\<close>

text \<open>
  A string is a list of code units, here the 8-bit ones. \<open>is_space\<close> is the white space and
  line terminator class of the runtime (\<open>\s\<close> of a regular expression, what \<open>trim\<close> strips)
  on these code units: TAB, LF, VT, FF, CR, SPACE and NBSP.
\<close>

definition is_space :: "char \<Rightarrow> bool" where
  "is_space c = (c = CHR 0x09 \<or> c = CHR 0x0A \<or> c = CHR 0x0B \<or> c = CHR 0x0C \<or> c = CHR 0x0D
                  \<or> c = CHR 0x20 \<or> c = CHR 0xA0)"

definition js_trim :: "string \<Rightarrow> string" where
  "js_trim s = rev (dropWhile is_space (rev (dropWhile is_space s)))"

definition getInitialChar :: "string option \<Rightarrow> string \<Rightarrow> string" where
  "getInitialChar v fallback =
     (case v of None \<Rightarrow> fallback
      | Some s \<Rightarrow> (case js_trim s of [] \<Rightarrow> fallback | c # _ \<Rightarrow> [c]))"

subsection \<open>Comments and replies on feed posts (lines 866-1010)\<close>

text \<open>
  Each handler reads \<open>feedPosts\<close>, returns early on a missing post, comment or reply, and then
  maps the state; the result is the next \<open>feedPosts\<close> (the state itself after an early
  return). \<open>input\<close> is \<open>feedReplyInputs[postIndex]\<close>, \<open>targetIndex\<close> is
  \<open>feedReplyTargets[postIndex]\<close> when it is a number and \<open>None\<close> for \<open>'post'\<close>.
\<close>

definition handleFeedReplySend ::
    "FeedViewerProfile \<Rightarrow> string option \<Rightarrow> nat option \<Rightarrow> nat \<Rightarrow> FeedPost list \<Rightarrow> FeedPost list" where
  "handleFeedReplySend feedViewer input targetIndex postIndex feedPosts =
     (let content = js_trim (nullish input []) in
      if content = [] then feedPosts
      else case at_index feedPosts postIndex of
        None \<Rightarrow> feedPosts
      | Some post \<Rightarrow>
          let peopleComments = nullish (people_comments post) [] in
          if (case targetIndex of None \<Rightarrow> False | Some t \<Rightarrow> at_index peopleComments t = None)
          then feedPosts
          else
            let reply = \<lparr>reply_from = viewer_name feedViewer,
                  reply_to = (case targetIndex of
                      Some t \<Rightarrow> map_option author (at_index peopleComments t)
                    | None \<Rightarrow> Some (name (user post))),
                  reply_avatar = Some (nullish (avatar_char feedViewer)
                      (getInitialChar (Some (viewer_name feedViewer)) [])),
                  reply_text = content\<rparr>;
                newComment = \<lparr>author = viewer_name feedViewer,
                  comment_handle = user_handle feedViewer,
                  comment_avatar = Some (nullish (avatar_char feedViewer)
                      (getInitialChar (Some (viewer_name feedViewer)) [])),
                  comment_text = content,
                  replies = Some []\<rparr>
            in map_idx (\<lambda>item idx.
                 if idx \<noteq> postIndex then item
                 else
                   let nextComments = (case targetIndex of
                       Some t \<Rightarrow>
                         map_idx (\<lambda>comment commentIdx.
                           if commentIdx \<noteq> t then comment
                           else comment\<lparr>replies := Some (nullish (replies comment) [] @ [reply])\<rparr>)
                           0 (nullish (people_comments item) [])
                     | None \<Rightarrow> nullish (people_comments item) [] @ [newComment])
                   in item\<lparr>people_comments := Some nextComments,
                        stats := (stats item)\<lparr>
                          comments := Some (nullish (comments (stats item)) 0 + 1)\<rparr>\<rparr>) 0 feedPosts)"

definition handleDeleteFeedComment :: "nat \<Rightarrow> nat \<Rightarrow> FeedPost list \<Rightarrow> FeedPost list" where
  "handleDeleteFeedComment postIndex commentIndex feedPosts =
     (case at_index feedPosts postIndex of
        None \<Rightarrow> feedPosts
      | Some post \<Rightarrow>
          (case at_index (nullish (people_comments post) []) commentIndex of
             None \<Rightarrow> feedPosts
           | Some targetComment \<Rightarrow>
               let removedCount = 1 + int (length (nullish (replies targetComment) [])) in
               map_idx (\<lambda>item idx.
                 if idx \<noteq> postIndex then item
                 else
                   let nextComments =
                     filter_idx (\<lambda>_ idx2. idx2 \<noteq> commentIndex) 0 (nullish (people_comments item) [])
                   in item\<lparr>people_comments := Some nextComments,
                        stats := (stats item)\<lparr>
                          comments := Some (max 0 (nullish (comments (stats item)) 0 - removedCount))\<rparr>\<rparr>)
                 0 feedPosts))"

definition handleDeleteFeedReply :: "nat \<Rightarrow> nat \<Rightarrow> nat \<Rightarrow> FeedPost list \<Rightarrow> FeedPost list" where
  "handleDeleteFeedReply postIndex commentIndex replyIndex feedPosts =
     (case at_index feedPosts postIndex of
        None \<Rightarrow> feedPosts
      | Some post \<Rightarrow>
          (case at_index (nullish (people_comments post) []) commentIndex of
             None \<Rightarrow> feedPosts
           | Some comment \<Rightarrow>
               (case at_index (nullish (replies comment) []) replyIndex of
                  None \<Rightarrow> feedPosts
                | Some _ \<Rightarrow>
                    map_idx (\<lambda>item idx.
                      if idx \<noteq> postIndex then item
                      else
                        let nextComments =
                          map_idx (\<lambda>itemComment idx2.
                            if idx2 \<noteq> commentIndex then itemComment
                            else itemComment\<lparr>replies :=
                              Some (filter_idx (\<lambda>_ idx3. idx3 \<noteq> replyIndex) 0
                                      (nullish (replies itemComment) []))\<rparr>)
                            0 (nullish (people_comments item) [])
                        in item\<lparr>people_comments := Some nextComments,
                             stats := (stats item)\<lparr>
                               comments := Some (max 0 (nullish (comments (stats item)) 0 - 1))\<rparr>\<rparr>)
                      0 feedPosts)))"

text \<open>
  The counter updates the same handlers hand to \<open>updateStatData\<close>
  (\<open>_.update(statData, path, (value) => ...)\<close>, lines 930, 966 and 1006), on the number
  stored at the path, \<open>None\<close> when there is none.
\<close>

definition statCommentsAdd :: "int option \<Rightarrow> int" where
  "statCommentsAdd v = nullish v 0 + 1"

definition statCommentsRemove :: "int \<Rightarrow> int option \<Rightarrow> int" where
  "statCommentsRemove removedCount v = max 0 (nullish v 0 - removedCount)"

subsection \<open>Opening a conversation (lines 615-634)\<close>

record NpcChatRecord =
  key :: string
  updated_at :: int
  messages :: "DMMessage list"

text \<open>
  The effect that runs when \<open>dmKey\<close> or the backend's thread changes. \<open>read\<close> is what
  \<open>readNpcChat(dmKey)\<close> settles to (a rejection, \<open>null\<close> or the cached record), \<open>thread\<close> is
  \<open>data.direct_message_thread?.messages\<close>, \<open>current\<close> is \<open>dmMessages\<close> when the state updater
  runs; the result is the next \<open>dmMessages\<close>. With an empty \<open>dmKey\<close> the effect does nothing.
\<close>

definition loadNpcChat ::
    "string \<Rightarrow> bool \<Rightarrow> error + NpcChatRecord option \<Rightarrow> DMMessage list option \<Rightarrow> DMMessage list
      \<Rightarrow> DMMessage list" where
  "loadNpcChat dmKey cancelled read thread current =
     (if dmKey = [] then current
      else case read of
        Inl _ \<Rightarrow> current
      | Inr record \<Rightarrow>
          (case record of
             None \<Rightarrow> current
           | Some r \<Rightarrow>
               if cancelled \<or> length (messages r) = 0 then current
               else
                 let base = nullish thread current in
                 if length (messages r) > length base then messages r else base))"


subsection \<open>The invariant of the counters and sample states\<close>

text \<open>A counter that is absent is displayed as \<open>0\<close> (\<open>post.stats.comments ?? 0\<close>).\<close>

definition nonneg_stats :: "FeedPostStats \<Rightarrow> bool" where
  "nonneg_stats s = (0 \<le> nullish (comments s) 0 \<and> 0 \<le> nullish (likes s) 0)"

definition liked_post :: FeedPost where
  "liked_post = \<lparr>user = \<lparr>name = ''A'', handle = ''@a'', avatar_icon = None, avatar_bg = None\<rparr>,
     body = ''hi'', tags = None, image_caption = None,
     stats = \<lparr>comments = Some 0, likes = Some 0, is_liked_by_viewer = Some True\<rparr>,
     people_comments = None\<rparr>"

definition liked_profile_post :: ProfilePost where
  "liked_profile_post = \<lparr>post_id = ''p1'', post_body = ''hi'', post_image_caption = None,
     post_stats = \<lparr>comments = Some 0, likes = Some 0, is_liked_by_viewer = Some True\<rparr>,
     comments_data = None\<rparr>"

definition busy_post :: FeedPost where
  "busy_post = \<lparr>user = \<lparr>name = ''A'', handle = ''@a'', avatar_icon = None, avatar_bg = None\<rparr>,
     body = ''hi'', tags = None, image_caption = None,
     stats = \<lparr>comments = Some 1, likes = Some 3, is_liked_by_viewer = None\<rparr>,
     people_comments = Some [\<lparr>author = ''X'', comment_handle = None, comment_avatar = None,
       comment_text = ''t'',
       replies = Some [\<lparr>reply_from = ''Y'', reply_to = Some ''X'', reply_avatar = None,
         reply_text = ''r''\<rparr>]\<rparr>]\<rparr>"

definition busy_profile_post :: ProfilePost where
  "busy_profile_post = \<lparr>post_id = ''p2'', post_body = ''yo'', post_image_caption = None,
     post_stats = \<lparr>comments = None, likes = Some 1, is_liked_by_viewer = Some True\<rparr>,
     comments_data = None\<rparr>"

definition sample_viewer :: FeedViewerProfile where
  "sample_viewer = \<lparr>viewer_name = ''Me'', avatar_char = None, user_handle = Some ''@me'',
     posts_count = None, followers_count = None, following_count = None\<rparr>"

definition msg1 :: DMMessage where
  "msg1 = \<lparr>sender_handle = ''@a'', content = ''hello'', is_read = None, timestamp = None\<rparr>"

definition msg2 :: DMMessage where
  "msg2 = \<lparr>sender_handle = ''@you'', content = ''hi'', is_read = Some False, timestamp = None\<rparr>"

definition empty_record :: NpcChatRecord where
  "empty_record = \<lparr>key = ''@a'', updated_at = 0, messages = []\<rparr>"

definition cached_record :: NpcChatRecord where
  "cached_record = \<lparr>key = ''@a'', updated_at = 0, messages = [msg1, msg2]\<rparr>"

section \<open>Documents and the host\<close>

text \<open>
  What the variable store, the parsers and an imported file hand to the code is untyped
  (\<open>unknown\<close>, or a cast that nothing checks), so these values are modelled as the runtime
  has them. An object is the list of its own properties in insertion order; a property read
  finds the first entry of a key. Numbers are the integers.
\<close>

datatype json =
    JUndefined
  | JNull
  | JBool bool
  | JNum int
  | JStr string
  | JArr "json list"
  | JObj "(string \<times> json) list"

text \<open>\<open>!value\<close> is \<open>\<not> truthy value\<close>.\<close>

fun truthy :: "json \<Rightarrow> bool" where
  "truthy JUndefined = False"
| "truthy JNull = False"
| "truthy (JBool b) = b"
| "truthy (JNum n) = (n \<noteq> 0)"
| "truthy (JStr s) = (s \<noteq> [])"
| "truthy (JArr xs) = True"
| "truthy (JObj kvs) = True"

fun is_nullish :: "json \<Rightarrow> bool" where
  "is_nullish JUndefined = True"
| "is_nullish JNull = True"
| "is_nullish _ = False"

text \<open>\<open>a ?? b\<close> on values.\<close>

definition nullish_or :: "json \<Rightarrow> json \<Rightarrow> json" where
  "nullish_or a b = (if is_nullish a then b else a)"

text \<open>\<open>typeof value === 'object'\<close>.\<close>

fun is_object :: "json \<Rightarrow> bool" where
  "is_object JNull = True"
| "is_object (JArr xs) = True"
| "is_object (JObj kvs) = True"
| "is_object _ = False"

text \<open>
  \<open>value.k\<close> for a value that is neither \<open>null\<close> nor \<open>undefined\<close> (on those the read raises a
  TypeError, which each caller below writes out), for the property names that App.tsx
  reads: none of them is a property of an array, a string, a number or a boolean.
\<close>

fun get_prop :: "json \<Rightarrow> string \<Rightarrow> json" where
  "get_prop (JObj kvs) k = (case map_of kvs k of Some v \<Rightarrow> v | None \<Rightarrow> JUndefined)"
| "get_prop _ k = JUndefined"

text \<open>\<open>k in record\<close>, for an object or array and the same property names.\<close>

fun has_key :: "string \<Rightarrow> json \<Rightarrow> bool" where
  "has_key k (JObj kvs) = (k \<in> fst ` set kvs)"
| "has_key k _ = False"

text \<open>\<open>_.get(value, 'k')\<close> with a one-segment path: \<open>undefined\<close> on \<open>null\<close> and \<open>undefined\<close>.\<close>

definition lodash_get :: "json \<Rightarrow> string \<Rightarrow> json" where
  "lodash_get v k = (if is_nullish v then JUndefined else get_prop v k)"

text \<open>
  \<open>{ ...record, k: v }\<close>: the own properties of \<open>record\<close> in their order, \<open>k\<close> overwritten in
  place or added last. A number, string or boolean spreads to no property. (No array is
  spread in App.tsx with properties to copy.)
\<close>

fun spread_set :: "json \<Rightarrow> string \<Rightarrow> json \<Rightarrow> json" where
  "spread_set (JObj kvs) k v = JObj (AList.update k v kvs)"
| "spread_set _ k v = JObj [(k, v)]"

text \<open>
  \<open>_.set(object, 'k', v)\<close> with a one-segment path, on the clone that \<open>updateWithVars\<close> makes:
  a value that is not an object is returned as it is. (A property set on an array is not
  part of the array's elements and is not kept here.)
\<close>

fun lodash_set :: "json \<Rightarrow> string \<Rightarrow> json \<Rightarrow> json" where
  "lodash_set (JObj kvs) k v = JObj (AList.update k v kvs)"
| "lodash_set other k v = other"

text \<open>Exceptions: a computation that may raise is a value of \<open>error + 'a\<close>.\<close>

definition and_then :: "error + 'a \<Rightarrow> ('a \<Rightarrow> error + 'b) \<Rightarrow> error + 'b" where
  "and_then m f = (case m of Inl e \<Rightarrow> Inl e | Inr x \<Rightarrow> f x)"

definition try_catch :: "error + 'a \<Rightarrow> (error \<Rightarrow> error + 'a) \<Rightarrow> error + 'a" where
  "try_catch m handler = (case m of Inl e \<Rightarrow> handler e | Inr x \<Rightarrow> Inr x)"

text \<open>\<open>xs.map(f)\<close> with a callback that may raise: the first exception ends the map.\<close>

fun try_map :: "('a \<Rightarrow> error + 'b) \<Rightarrow> 'a list \<Rightarrow> error + 'b list" where
  "try_map f [] = Inr []"
| "try_map f (x # xs) =
     (case f x of
        Inl e \<Rightarrow> Inl e
      | Inr y \<Rightarrow> (case try_map f xs of Inl e \<Rightarrow> Inl e | Inr ys \<Rightarrow> Inr (y # ys)))"

text \<open>
  The scope argument of the variable functions (\<open>VariableOption\<close>): \<open>{ type: 'message',
  message_id }\<close>, \<open>{ type: 'chat' }\<close>, \<open>{ type: 'character' }\<close>, \<open>{ type: 'global' }\<close>.
\<close>

datatype VariableOption = Message json | Chat | Character | Global

text \<open>
  \<open>Mvu\<close>, the structured backend. A member that is not a function is \<open>None\<close>; calling it
  raises a TypeError.
\<close>

record MvuApi =
  getMvuData :: "(VariableOption \<Rightarrow> error + json) option"
  replaceMvuData :: "(json \<Rightarrow> VariableOption \<Rightarrow> error + unit) option"

text \<open>
  The globals of the host page and the imported library functions, as one call of the code
  finds them. A global that is not defined (\<open>typeof f !== 'function'\<close>,
  \<open>typeof Mvu === 'undefined'\<close>) is \<open>None\<close>; a call returns a value or raises.
  \<open>yaml_parse\<close> is \<open>parse\<close> of the \<open>yaml\<close> package, \<open>JSON_parse\<close> is \<open>JSON.parse\<close>,
  \<open>to_Number\<close> is \<open>Number(value)\<close>, which raises on an object that has no primitive value
  (its \<open>NaN\<close> has no counterpart among the integers; no property below depends on the
  number it gives), \<open>Number_toString\<close> is the conversion of a number to a string, as
  \<open>String(n)\<close> does it (decimal digits up to \<open>10^21\<close>, exponent notation from there on),
  \<open>Date_now\<close> is \<open>Date.now()\<close>.
\<close>

record host =
  yaml_parse :: "string \<Rightarrow> error + json"
  JSON_parse :: "string \<Rightarrow> error + json"
  substitudeMacros :: "(string \<Rightarrow> error + string) option"
  getCurrentMessageId :: "(error + json) option"
  waitGlobalInitialized :: "(error + unit) option"
  Mvu :: "MvuApi option"
  getVariables :: "(VariableOption \<Rightarrow> error + json) option"
  replaceVariables :: "(json \<Rightarrow> VariableOption \<Rightarrow> error + unit) option"
  to_Number :: "json \<Rightarrow> error + int"
  Number_toString :: "int \<Rightarrow> string"
  Date_now :: int

section \<open>Structured Document Parser (lines 262-280)\<close>

text \<open>
  \<open>source.replace(/,\s*(\}|\])/g, '$1')\<close>: scanning from the left, a comma that is followed
  by white space (as much as there is) and then a closing brace or bracket is replaced,
  together with that white space, by the closer; the scan goes on behind the closer.
  \<open>match_closer\<close> is the match of \<open>\s*(\}|\])\<close> at the head of a text: the closer and what
  follows it.
\<close>

fun match_closer :: "string \<Rightarrow> (char \<times> string) option" where
  "match_closer [] = None"
| "match_closer (c # cs) =
     (if is_space c then match_closer cs
      else if c = CHR ''}'' \<or> c = CHR '']'' then Some (c, cs)
      else None)"

lemma match_closer_shorter: "match_closer cs = Some (d, rest) \<Longrightarrow> length rest < length cs"
  by (induction cs) (auto split: if_splits)

function strip_trailing_commas :: "string \<Rightarrow> string" where
  "strip_trailing_commas [] = []"
| "strip_trailing_commas (c # cs) =
     (if c = CHR '','' then
        (case match_closer cs of
           Some (d, rest) \<Rightarrow> d # strip_trailing_commas rest
         | None \<Rightarrow> c # strip_trailing_commas cs)
      else c # strip_trailing_commas cs)"
  by pat_completeness auto
termination
  by (relation "measure length") (auto dest: match_closer_shorter)

text \<open>
  \<open>parseYamlSource\<close>: three \<open>try\<close> blocks in a row. Each returns \<open>parsed ?? {}\<close>; the first
  two ignore an exception, the last one logs it and returns \<open>{}\<close>. The bodies of the three
  blocks are named here.
\<close>

definition parseYaml :: "host \<Rightarrow> string \<Rightarrow> error + json" where
  "parseYaml h source = and_then (yaml_parse h source) (\<lambda>v. Inr (nullish_or v (JObj [])))"

definition parseStrictJson :: "host \<Rightarrow> string \<Rightarrow> error + json" where
  "parseStrictJson h source = and_then (JSON_parse h source) (\<lambda>v. Inr (nullish_or v (JObj [])))"

definition parseRelaxedJson :: "host \<Rightarrow> string \<Rightarrow> error + json" where
  "parseRelaxedJson h source =
     (let relaxed = strip_trailing_commas source
      in and_then (JSON_parse h relaxed) (\<lambda>v. Inr (nullish_or v (JObj []))))"

definition parseYamlSource :: "host \<Rightarrow> string \<Rightarrow> error + json" where
  "parseYamlSource h source =
     try_catch (parseYaml h source)
       (\<lambda>_. try_catch (parseStrictJson h source)
         (\<lambda>_. try_catch (parseRelaxedJson h source)
           (\<lambda>error. Inr (JObj []))))"

subsection \<open>A model of the platform's JSON.parse\<close>

text \<open>
  \<open>JSON.parse\<close> belongs to the runtime, not to the repository; the properties of the parser
  above hold for every \<open>JSON_parse\<close>. To evaluate the parser on concrete texts, \<open>json_parse\<close>
  reads the JSON grammar (ECMA-404) on the fragment without \<open>\u\<close> escapes and without
  fractions or exponents in numbers; it rejects a text outside the fragment. The first
  argument of the three functions bounds the depth of their calls; \<open>json_parse\<close> starts
  them with more than the length of the text. A repeated key keeps its first place and its
  last value.
\<close>

definition json_ws :: "char \<Rightarrow> bool" where
  "json_ws c = (c = CHR 0x20 \<or> c = CHR 0x09 \<or> c = CHR 0x0A \<or> c = CHR 0x0D)"

fun skip_ws :: "string \<Rightarrow> string" where
  "skip_ws [] = []"
| "skip_ws (c # cs) = (if json_ws c then skip_ws cs else c # cs)"

definition unescape :: "char \<Rightarrow> char option" where
  "unescape c =
     (if c = CHR 0x22 \<or> c = CHR 0x5C \<or> c = CHR ''/'' then Some c
      else if c = CHR ''b'' then Some (CHR 0x08)
      else if c = CHR ''f'' then Some (CHR 0x0C)
      else if c = CHR ''n'' then Some (CHR 0x0A)
      else if c = CHR ''r'' then Some (CHR 0x0D)
      else if c = CHR ''t'' then Some (CHR 0x09)
      else None)"

text \<open>The characters of a string literal after its opening quote, up to the closing one.\<close>

fun parse_chars :: "string \<Rightarrow> string \<Rightarrow> (string \<times> string) option" where
  "parse_chars acc [] = None"
| "parse_chars acc [c] = (if c = CHR 0x22 then Some (rev acc, []) else None)"
| "parse_chars acc (c # d # cs) =
     (if c = CHR 0x22 then Some (rev acc, d # cs)
      else if c = CHR 0x5C then
        (case unescape d of Some x \<Rightarrow> parse_chars (x # acc) cs | None \<Rightarrow> None)
      else if (of_char c :: nat) < 0x20 then None
      else parse_chars (c # acc) (d # cs))"

definition is_digit :: "char \<Rightarrow> bool" where
  "is_digit c = (48 \<le> (of_char c :: nat) \<and> (of_char c :: nat) \<le> 57)"

definition digits_value :: "string \<Rightarrow> int" where
  "digits_value ds = foldl (\<lambda>n c. 10 * n + (int (of_char c) - 48)) 0 ds"

text \<open>An integer literal: an optional minus sign, then \<open>0\<close> or digits that do not start with \<open>0\<close>.\<close>

definition parse_number :: "string \<Rightarrow> (json \<times> string) option" where
  "parse_number s =
     (let neg = (s \<noteq> [] \<and> hd s = CHR ''-'');
          t = (if neg then tl s else s);
          ds = takeWhile is_digit t;
          rest = dropWhile is_digit t
      in if ds = [] \<or> (length ds > 1 \<and> hd ds = CHR ''0'') then None
         else if rest \<noteq> [] \<and> (hd rest = CHR ''.'' \<or> hd rest = CHR ''e'' \<or> hd rest = CHR ''E'') then None
         else Some (JNum (if neg then - digits_value ds else digits_value ds), rest))"

definition parse_literal :: "string \<Rightarrow> (json \<times> string) option" where
  "parse_literal s =
     (if take 4 s = ''true'' then Some (JBool True, drop 4 s)
      else if take 5 s = ''false'' then Some (JBool False, drop 5 s)
      else if take 4 s = ''null'' then Some (JNull, drop 4 s)
      else parse_number s)"

fun parse_value :: "nat \<Rightarrow> string \<Rightarrow> (json \<times> string) option"
  and parse_elements :: "nat \<Rightarrow> json list \<Rightarrow> string \<Rightarrow> (json \<times> string) option"
  and parse_members :: "nat \<Rightarrow> (string \<times> json) list \<Rightarrow> string \<Rightarrow> (json \<times> string) option" where
  "parse_value 0 s = None"
| "parse_value (Suc n) s =
     (case skip_ws s of
        [] \<Rightarrow> None
      | c # cs \<Rightarrow>
          if c = CHR ''['' then
            (case skip_ws cs of
               [] \<Rightarrow> None
             | d # ds \<Rightarrow> if d = CHR '']'' then Some (JArr [], ds) else parse_elements n [] cs)
          else if c = CHR ''{'' then
            (case skip_ws cs of
               [] \<Rightarrow> None
             | d # ds \<Rightarrow> if d = CHR ''}'' then Some (JObj [], ds) else parse_members n [] cs)
          else if c = CHR 0x22 then
            (case parse_chars [] cs of Some (str, rest) \<Rightarrow> Some (JStr str, rest) | None \<Rightarrow> None)
          else parse_literal (c # cs))"
| "parse_elements 0 acc s = None"
| "parse_elements (Suc n) acc s =
     (case parse_value n s of
        None \<Rightarrow> None
      | Some (v, rest) \<Rightarrow>
          (case skip_ws rest of
             [] \<Rightarrow> None
           | d # ds \<Rightarrow>
               if d = CHR '','' then parse_elements n (acc @ [v]) ds
               else if d = CHR '']'' then Some (JArr (acc @ [v]), ds)
               else None))"
| "parse_members 0 acc s = None"
| "parse_members (Suc n) acc s =
     (case skip_ws s of
        [] \<Rightarrow> None
      | q # cs \<Rightarrow>
          if q \<noteq> CHR 0x22 then None
          else
            (case parse_chars [] cs of
               None \<Rightarrow> None
             | Some (k, rest) \<Rightarrow>
                 (case skip_ws rest of
                    [] \<Rightarrow> None
                  | colon # vs \<Rightarrow>
                      if colon \<noteq> CHR '':'' then None
                      else
                        (case parse_value n vs of
                           None \<Rightarrow> None
                         | Some (v, rest') \<Rightarrow>
                             (case skip_ws rest' of
                                [] \<Rightarrow> None
                              | d # ds \<Rightarrow>
                                  if d = CHR '','' then parse_members n (AList.update k v acc) ds
                                  else if d = CHR ''}'' then Some (JObj (AList.update k v acc), ds)
                                  else None)))))"

definition json_parse :: "string \<Rightarrow> error + json" where
  "json_parse s =
     (case parse_value (2 * length s + 2) s of
        None \<Rightarrow> Inl SyntaxError
      | Some (v, rest) \<Rightarrow> if skip_ws rest = [] then Inr v else Inl SyntaxError)"

text \<open>The decimal digits of an integer: what \<open>String(n)\<close> gives for \<open>|n| < 10^21\<close>.\<close>

fun show_nat :: "nat \<Rightarrow> string" where
  "show_nat n =
     (if n < 10 then [char_of (48 + n)]
      else show_nat (n div 10) @ [char_of (48 + n mod 10)])"

definition show_int :: "int \<Rightarrow> string" where
  "show_int n = (if n < 0 then CHR ''-'' # show_nat (nat (- n)) else show_nat (nat n))"

text \<open>
  A host for evaluating the code on concrete inputs: \<open>JSON.parse\<close> as modelled, a YAML
  \<open>parse\<close> that accepts exactly the same texts (the package accepts more), no macro
  function and no variable backend. The sample documents hold small numbers only, and no
  object where a number is expected: numbers are converted to strings as decimal digits,
  and \<open>Number\<close> is the number itself.
\<close>

definition json_host :: host where
  "json_host = \<lparr>yaml_parse = json_parse, JSON_parse = json_parse, substitudeMacros = None,
     getCurrentMessageId = None, waitGlobalInitialized = None, Mvu = None,
     getVariables = None, replaceVariables = None,
     to_Number = (\<lambda>v. case v of JNum n \<Rightarrow> Inr n | _ \<Rightarrow> Inr 0), Number_toString = show_int,
     Date_now = 1700000000000\<rparr>"

section \<open>Macro Resolver and Schema Normalizer (lines 282-374)\<close>

definition resolveMacroString :: "host \<Rightarrow> string \<Rightarrow> string" where
  "resolveMacroString h v =
     (case substitudeMacros h of
        None \<Rightarrow> v
      | Some f \<Rightarrow> (case f v of Inr r \<Rightarrow> r | Inl error \<Rightarrow> v))"

fun resolveMacrosDeep :: "host \<Rightarrow> json \<Rightarrow> json"
  and resolveMacrosItems :: "host \<Rightarrow> json list \<Rightarrow> json list"
  and resolveMacrosEntries :: "host \<Rightarrow> (string \<times> json) list \<Rightarrow> (string \<times> json) list" where
  "resolveMacrosDeep h (JStr s) = JStr (resolveMacroString h s)"
| "resolveMacrosDeep h (JArr xs) = JArr (resolveMacrosItems h xs)"
| "resolveMacrosDeep h (JObj kvs) = JObj (resolveMacrosEntries h kvs)"
| "resolveMacrosDeep h JUndefined = JUndefined"
| "resolveMacrosDeep h JNull = JNull"
| "resolveMacrosDeep h (JBool b) = JBool b"
| "resolveMacrosDeep h (JNum n) = JNum n"
| "resolveMacrosItems h [] = []"
| "resolveMacrosItems h (x # xs) = resolveMacrosDeep h x # resolveMacrosItems h xs"
| "resolveMacrosEntries h [] = []"
| "resolveMacrosEntries h ((k, v) # kvs) = (k, resolveMacrosDeep h v) # resolveMacrosEntries h kvs"

text \<open>
  The callback of \<open>feed.posts.map\<close> in \<open>normalizeEchoChamberFeed\<close>. Reading a property of a
  post that is \<open>null\<close> or \<open>undefined\<close> raises.
\<close>

definition normalizePost :: "json \<Rightarrow> error + json" where
  "normalizePost post =
     (if is_nullish post then Inl TypeError
      else if \<not> truthy (get_prop post ''people_comments'') \<and> truthy (get_prop post ''People_comments'')
      then Inr (spread_set post ''people_comments'' (get_prop post ''People_comments''))
      else Inr post)"

text \<open>\<open>feed.posts.map\<close> is a function only when \<open>posts\<close> is an array.\<close>

definition normalizeEchoChamberFeed :: "json \<Rightarrow> error + json" where
  "normalizeEchoChamberFeed feed =
     (if is_nullish feed then Inl TypeError
      else if \<not> truthy (get_prop feed ''posts'') then Inr feed
      else case get_prop feed ''posts'' of
          JArr posts \<Rightarrow>
            and_then (try_map normalizePost posts)
              (\<lambda>normalizedPosts. Inr (spread_set feed ''posts'' (JArr normalizedPosts)))
        | _ \<Rightarrow> Inl TypeError)"

definition isRootData :: "json \<Rightarrow> bool" where
  "isRootData v =
     (if \<not> truthy v \<or> \<not> is_object v then False
      else has_key ''echo_chamber_feed'' v \<or> has_key ''user_profile_page'' v
           \<or> has_key ''direct_message_thread'' v)"

definition isEchoChamberFeed :: "json \<Rightarrow> bool" where
  "isEchoChamberFeed v =
     (if \<not> truthy v \<or> \<not> is_object v then False
      else has_key ''viewer_profile'' v \<or> has_key ''posts'' v)"

definition coerceEchoChamberFeed :: "host \<Rightarrow> json \<Rightarrow> error + json" where
  "coerceEchoChamberFeed h v =
     (if \<not> truthy v then Inr JNull
      else case v of
          JStr s \<Rightarrow>
            and_then (parseYamlSource h s)
              (\<lambda>parsed.
                if isRootData parsed then Inr (nullish_or (get_prop parsed ''echo_chamber_feed'') JNull)
                else if isEchoChamberFeed parsed then Inr parsed
                else Inr JNull)
        | _ \<Rightarrow> if is_object v \<and> isEchoChamberFeed v then Inr v else Inr JNull)"

text \<open>
  \<open>coerceRootData\<close> calls itself on what the parser returns for a string, which can be a
  string again (a YAML plain scalar parses to itself), and on the \<open>echo_chamber\<close> property.
  The first argument is the number of stack frames left; the runtime raises a RangeError
  when they are used up.
\<close>

fun coerceRootData :: "nat \<Rightarrow> host \<Rightarrow> json \<Rightarrow> error + json" where
  "coerceRootData 0 h v = Inl RangeError"
| "coerceRootData (Suc depth) h v =
     (if \<not> truthy v then Inr JNull
      else case v of
          JStr s \<Rightarrow> and_then (parseYamlSource h s) (\<lambda>parsed. coerceRootData depth h parsed)
        | _ \<Rightarrow>
            if is_object v then
              if isRootData v then
                and_then (coerceEchoChamberFeed h (get_prop v ''echo_chamber_feed''))
                  (\<lambda>feed. Inr (JObj [
                     (''echo_chamber_feed'', nullish_or feed (get_prop v ''echo_chamber_feed'')),
                     (''user_profile_page'', get_prop v ''user_profile_page''),
                     (''direct_message_thread'', get_prop v ''direct_message_thread'')]))
              else
                and_then
                  (if truthy (get_prop v ''echo_chamber'')
                   then coerceRootData depth h (get_prop v ''echo_chamber'')
                   else Inr JNull)
                  (\<lambda>nested.
                    if truthy nested then Inr nested
                    else if isEchoChamberFeed v then Inr (JObj [(''echo_chamber_feed'', v)])
                    else Inr JNull)
            else Inr JNull)"

subsection \<open>Sample documents\<close>

text \<open>The post of the specification's scenario, inside a feed, and what the normalizer makes of it.\<close>

definition alias_post :: json where
  "alias_post = JObj [
     (''user'', JObj [(''name'', JStr ''A''), (''handle'', JStr ''@a'')]),
     (''body'', JStr ''hi''),
     (''stats'', JObj [(''comments'', JNum 0), (''likes'', JNum 0)]),
     (''People_comments'', JArr [JObj [(''author'', JStr ''X''), (''text'', JStr ''t'')]])]"

definition alias_post_normalized :: json where
  "alias_post_normalized = JObj [
     (''user'', JObj [(''name'', JStr ''A''), (''handle'', JStr ''@a'')]),
     (''body'', JStr ''hi''),
     (''stats'', JObj [(''comments'', JNum 0), (''likes'', JNum 0)]),
     (''People_comments'', JArr [JObj [(''author'', JStr ''X''), (''text'', JStr ''t'')]]),
     (''people_comments'', JArr [JObj [(''author'', JStr ''X''), (''text'', JStr ''t'')]])]"

definition alias_feed :: json where
  "alias_feed = JObj [(''viewer_profile'', JObj [(''name'', JStr ''V'')]), (''posts'', JArr [alias_post])]"

text \<open>Texts for the parser: a trailing comma behind a string that contains \<open>,]\<close>, the same text
  without the trailing comma, a text that no grammar accepts, and a plain trailing comma.\<close>

definition comma_in_string_text :: string where
  \<open>comma_in_string_text = ''["x,]",]''\<close>

definition comma_in_string_plain :: string where
  \<open>comma_in_string_plain = ''["x,]"]''\<close>

definition broken_text :: string where
  \<open>broken_text = ''{"a": [1, 2, "b": }''\<close>

definition trailing_text :: string where
  \<open>trailing_text = ''{"a": [1, 2, ]}''\<close>

section \<open>Variable Store Reader (lines 376-415, 473-481)\<close>

text \<open>
  The first \<open>try\<close> block of \<open>readEchoChamberVariables\<close>. Its value is what the block
  returns from the function when that is truthy; any other value means that the code goes
  on behind the block. The \<open>catch\<close> logs a warning.
\<close>

definition readMvu :: "nat \<Rightarrow> host \<Rightarrow> error + json" where
  "readMvu depth h =
     try_catch
       (case Mvu h of
          None \<Rightarrow> Inr JNull
        | Some mvu \<Rightarrow>
            (case getCurrentMessageId h of
               None \<Rightarrow> Inr JNull
             | Some currentMessageId \<Rightarrow>
                 and_then currentMessageId (\<lambda>message_id.
                 and_then
                   (case getMvuData mvu of
                      None \<Rightarrow> Inl TypeError
                    | Some getData \<Rightarrow> getData (Message message_id))
                   (\<lambda>variables.
                     let statData = lodash_get variables ''stat_data'' in
                     coerceRootData depth h
                       (nullish_or (lodash_get statData ''echo_chamber'') statData)))))
       (\<lambda>error. Inr JNull)"

text \<open>The body of the loop over the scopes: one \<open>try\<close> block with five probes.\<close>

definition readScope ::
    "nat \<Rightarrow> host \<Rightarrow> (VariableOption \<Rightarrow> error + json) \<Rightarrow> VariableOption \<Rightarrow> error + json" where
  "readScope depth h getVars scope =
     try_catch
       (and_then (getVars scope) (\<lambda>vars.
          let statData = lodash_get vars ''stat_data'' in
          and_then (coerceRootData depth h
                      (nullish_or (lodash_get statData ''echo_chamber'') statData)) (\<lambda>statRoot.
          if truthy statRoot then Inr statRoot
          else
          and_then (coerceEchoChamberFeed h (lodash_get statData ''echo_chamber_feed'')) (\<lambda>statFeed.
          if truthy statFeed then Inr (JObj [(''echo_chamber_feed'', statFeed)])
          else
          and_then (coerceRootData depth h vars) (\<lambda>direct.
          if truthy direct then Inr direct
          else
          and_then (coerceRootData depth h (lodash_get vars ''echo_chamber'')) (\<lambda>nested.
          if truthy nested then Inr nested
          else
          and_then (coerceEchoChamberFeed h (lodash_get vars ''echo_chamber_feed'')) (\<lambda>feedOnly.
          if truthy feedOnly then Inr (JObj [(''echo_chamber_feed'', feedOnly)])
          else Inr JNull)))))))
       (\<lambda>error. Inr JNull)"

fun readScopes ::
    "nat \<Rightarrow> host \<Rightarrow> (VariableOption \<Rightarrow> error + json) \<Rightarrow> VariableOption list \<Rightarrow> error + json" where
  "readScopes depth h getVars [] = Inr JNull"
| "readScopes depth h getVars (scope # scopes) =
     and_then (readScope depth h getVars scope) (\<lambda>found.
       if truthy found then Inr found else readScopes depth h getVars scopes)"

text \<open>
  The list of scopes is built outside any \<open>try\<close> block: \<open>scopes.push({ type: 'message',
  message_id: getCurrentMessageId() })\<close> when the function exists, then chat, character
  and global.
\<close>

definition variableScopes :: "host \<Rightarrow> error + VariableOption list" where
  "variableScopes h =
     (case getCurrentMessageId h of
        None \<Rightarrow> Inr [Chat, Character, Global]
      | Some currentMessageId \<Rightarrow>
          and_then currentMessageId (\<lambda>message_id.
            Inr [Message message_id, Chat, Character, Global]))"

definition readEchoChamberVariables :: "nat \<Rightarrow> host \<Rightarrow> error + json" where
  "readEchoChamberVariables depth h =
     and_then (readMvu depth h) (\<lambda>fromStat.
       if truthy fromStat then Inr fromStat
       else case getVariables h of
         None \<Rightarrow> Inr JNull
       | Some getVars \<Rightarrow>
           and_then (variableScopes h) (\<lambda>scopes. readScopes depth h getVars scopes))"

text \<open>\<open>object.k = v\<close> on an object.\<close>

fun set_prop :: "json \<Rightarrow> string \<Rightarrow> json \<Rightarrow> json" where
  "set_prop (JObj kvs) k v = JObj (AList.update k v kvs)"
| "set_prop other k v = other"

text \<open>
  \<open>refreshData\<close>, on the state \<open>data\<close> of the component: the result is the state after the
  call. It has no \<open>try\<close> block of its own.
\<close>

definition refreshData :: "nat \<Rightarrow> host \<Rightarrow> json \<Rightarrow> error + json" where
  "refreshData depth h data =
     and_then (readEchoChamberVariables depth h) (\<lambda>variableData.
       if \<not> truthy variableData then Inr data
       else
         let next = resolveMacrosDeep h variableData in
         if truthy (get_prop next ''echo_chamber_feed'') then
           and_then (normalizeEchoChamberFeed (get_prop next ''echo_chamber_feed'')) (\<lambda>feed.
             Inr (set_prop next ''echo_chamber_feed'' feed))
         else Inr next)"

section \<open>Variable Store Writer (lines 417-464)\<close>

text \<open>
  \<open>updateStatData\<close> acts on the host. Its model returns the calls it makes, in order, and
  how it ends: a \<open>call list \<times> (error + 'a)\<close>. A call is recorded when it is made, also when
  it then raises. \<open>Warn\<close> is \<open>console.warn\<close> with its first argument.
\<close>

datatype call =
    WaitGlobalInitialized
  | GetMvuData VariableOption
  | ReplaceMvuData json VariableOption
  | GetVariables VariableOption
  | ReplaceVariables json VariableOption
  | Refresh
  | Warn string

type_synonym 'a run = "call list \<times> (error + 'a)"

definition run_return :: "'a \<Rightarrow> 'a run" where
  "run_return x = ([], Inr x)"

definition run_lift :: "error + 'a \<Rightarrow> 'a run" where
  "run_lift r = ([], r)"

definition run_call :: "call \<Rightarrow> error + 'a \<Rightarrow> 'a run" where
  "run_call c outcome = ([c], outcome)"

definition run_bind :: "'a run \<Rightarrow> ('a \<Rightarrow> 'b run) \<Rightarrow> 'b run" where
  "run_bind m f =
     (case snd m of
        Inl e \<Rightarrow> (fst m, Inl e)
      | Inr x \<Rightarrow> (fst m @ fst (f x), snd (f x)))"

definition run_catch :: "'a run \<Rightarrow> (error \<Rightarrow> 'a run) \<Rightarrow> 'a run" where
  "run_catch m handler =
     (case snd m of
        Inl e \<Rightarrow> (fst m @ fst (handler e), snd (handler e))
      | Inr x \<Rightarrow> m)"

text \<open>
  \<open>updateWithVars\<close>, with \<open>apply\<close> returning the \<open>stat_data\<close> it has mutated. The deep clone
  is the value itself.
\<close>

definition updateWithVars :: "(json \<Rightarrow> error + json) \<Rightarrow> json \<Rightarrow> error + json" where
  "updateWithVars apply vars =
     (let next = nullish_or vars (JObj []);
          statData = nullish_or (lodash_get next ''stat_data'') (JObj [])
      in and_then (apply statData) (\<lambda>statData'. Inr (lodash_set next ''stat_data'' statData')))"

text \<open>
  The second \<open>try\<close> block: the structured backend. Its value tells whether the block has
  returned from the function.
\<close>

definition updateMvu ::
    "host \<Rightarrow> (json \<Rightarrow> error + json) \<Rightarrow> error + unit \<Rightarrow> VariableOption \<Rightarrow> bool run" where
  "updateMvu h apply refresh option =
     (case Mvu h of
        None \<Rightarrow> run_return False
      | Some mvu \<Rightarrow>
          (case getMvuData mvu of
             None \<Rightarrow> run_return False
           | Some getData \<Rightarrow>
               run_bind (run_call (GetMvuData option) (getData option)) (\<lambda>vars.
               run_bind (run_lift (updateWithVars apply (nullish_or vars (JObj [])))) (\<lambda>next.
               run_bind
                 (case replaceMvuData mvu of
                    None \<Rightarrow> run_lift (Inl TypeError)
                  | Some replace \<Rightarrow> run_call (ReplaceMvuData next option) (replace next option))
                 (\<lambda>_.
               run_bind (run_call Refresh refresh) (\<lambda>_. run_return True))))))"

text \<open>The third \<open>try\<close> block: the generic backend.\<close>

definition updateVariables ::
    "host \<Rightarrow> (json \<Rightarrow> error + json) \<Rightarrow> error + unit \<Rightarrow> VariableOption \<Rightarrow> unit run" where
  "updateVariables h apply refresh option =
     (case getVariables h of
        None \<Rightarrow> run_return ()
      | Some getVars \<Rightarrow>
          (case replaceVariables h of
             None \<Rightarrow> run_return ()
           | Some replaceVars \<Rightarrow>
               run_bind (run_call (GetVariables option) (getVars option)) (\<lambda>vars.
               run_bind (run_lift (updateWithVars apply (nullish_or vars (JObj [])))) (\<lambda>next.
               run_bind (run_call (ReplaceVariables next option) (replaceVars next option)) (\<lambda>_.
               run_call Refresh refresh)))))"

definition messageOption :: "host \<Rightarrow> error + VariableOption" where
  "messageOption h =
     (case getCurrentMessageId h of
        Some currentMessageId \<Rightarrow> and_then currentMessageId (\<lambda>message_id. Inr (Message message_id))
      | None \<Rightarrow> Inr (Message (JStr ''latest'')))"

text \<open>The first \<open>try\<close> block: \<open>await waitGlobalInitialized('Mvu')\<close>, with its \<open>catch\<close>.\<close>

definition waitForMvu :: "host \<Rightarrow> unit run" where
  "waitForMvu h =
     run_catch
       (case waitGlobalInitialized h of
          Some outcome \<Rightarrow> run_call WaitGlobalInitialized outcome
        | None \<Rightarrow> run_return ())
       (\<lambda>error. run_call (Warn ''Failed waiting for MVU:'') (Inr ()))"

text \<open>
  \<open>refresh\<close> is how the callback ends when it is called. The scope is computed first,
  outside any \<open>try\<close> block.
\<close>

definition updateStatData :: "host \<Rightarrow> (json \<Rightarrow> error + json) \<Rightarrow> error + unit \<Rightarrow> unit run" where
  "updateStatData h apply refresh =
     run_bind (run_lift (messageOption h)) (\<lambda>option.
     run_bind (waitForMvu h) (\<lambda>_.
     run_bind
       (run_catch (updateMvu h apply refresh option)
          (\<lambda>error. run_bind (run_call (Warn ''Failed to update MVU data:'') (Inr ()))
             (\<lambda>_. run_return False)))
       (\<lambda>returned.
     if returned then run_return ()
     else
       run_catch (updateVariables h apply refresh option)
         (\<lambda>error. run_call (Warn ''Failed to update variables:'') (Inr ())))))"

text \<open>A call to the generic backend.\<close>

fun is_generic_call :: "call \<Rightarrow> bool" where
  "is_generic_call (GetVariables option) = True"
| "is_generic_call (ReplaceVariables next option) = True"
| "is_generic_call _ = False"

subsection \<open>Sample hosts\<close>

text \<open>
  Hosts whose backends raise: the structured backend on every read and write, the generic
  one on the message and chat scopes only, or on every scope; a structured backend that
  reads and then fails to write, with and without a generic backend beside it; and a
  mutator for \<open>updateStatData\<close>.
\<close>

definition character_vars :: json where
  "character_vars = JObj [(''stat_data'', JObj [(''echo_chamber'',
     JObj [(''echo_chamber_feed'', alias_feed)])])]"

definition failing_mvu :: MvuApi where
  "failing_mvu = \<lparr>getMvuData = Some (\<lambda>option. Inl (HostError ''mvu'')),
     replaceMvuData = Some (\<lambda>next option. Inl (HostError ''mvu''))\<rparr>"

definition partly_failing_host :: host where
  "partly_failing_host = json_host\<lparr>
     getCurrentMessageId := Some (Inr (JNum 7)),
     Mvu := Some failing_mvu,
     getVariables := Some (\<lambda>scope. case scope of
         Character \<Rightarrow> Inr character_vars
       | Global \<Rightarrow> Inr (JObj [])
       | _ \<Rightarrow> Inl (HostError ''vars'')),
     replaceVariables := Some (\<lambda>next option. Inr ())\<rparr>"

definition failing_host :: host where
  "failing_host = json_host\<lparr>
     getCurrentMessageId := Some (Inr (JNum 7)),
     Mvu := Some failing_mvu,
     getVariables := Some (\<lambda>scope. Inl (HostError ''vars'')),
     replaceVariables := Some (\<lambda>next option. Inl (HostError ''vars''))\<rparr>"

definition write_failing_mvu :: MvuApi where
  "write_failing_mvu = \<lparr>getMvuData = Some (\<lambda>option. Inr (JObj [(''stat_data'', JObj [])])),
     replaceMvuData = Some (\<lambda>next option. Inl (HostError ''mvu''))\<rparr>"

definition fallback_host :: host where
  "fallback_host = json_host\<lparr>
     getCurrentMessageId := Some (Inr (JNum 7)),
     waitGlobalInitialized := Some (Inr ()),
     Mvu := Some write_failing_mvu,
     getVariables := Some (\<lambda>scope. Inr (JObj [])),
     replaceVariables := Some (\<lambda>next option. Inr ())\<rparr>"

definition mvu_only_host :: host where
  "mvu_only_host = json_host\<lparr>
     getCurrentMessageId := Some (Inr (JNum 7)),
     waitGlobalInitialized := Some (Inr ()),
     Mvu := Some write_failing_mvu\<rparr>"

definition set_flag :: "json \<Rightarrow> error + json" where
  "set_flag statData = Inr (lodash_set statData ''flag'' (JBool True))"

text \<open>A host with a generic backend whose \<open>getCurrentMessageId\<close> raises, and no \<open>Mvu\<close>.\<close>

definition id_failing_host :: host where
  "id_failing_host = json_host\<lparr>
     getCurrentMessageId := Some (Inl (HostError ''no message id'')),
     getVariables := Some (\<lambda>scope. Inr (JObj [])),
     replaceVariables := Some (\<lambda>next option. Inr ())\<rparr>"

section \<open>Conversation Cache: import (lines 235-260, 808-825)\<close>

text \<open>
  \<open>String(value)\<close>: a string is itself, a number is converted by the host's
  \<open>Number_toString\<close>, an array is its elements joined by commas (\<open>null\<close> and \<open>undefined\<close>
  elements as empty strings, the others converted in their turn). An object is
  \<open>[object Object]\<close>, unless it has a property \<open>toString\<close> of its own: the values of a parsed
  document are not functions, so the object has no primitive value and the conversion raises
  a TypeError.
\<close>

fun js_String :: "host \<Rightarrow> json \<Rightarrow> error + string"
  and js_join :: "host \<Rightarrow> json list \<Rightarrow> error + string" where
  "js_String h JUndefined = Inr ''undefined''"
| "js_String h JNull = Inr ''null''"
| "js_String h (JBool b) = Inr (if b then ''true'' else ''false'')"
| "js_String h (JNum n) = Inr (Number_toString h n)"
| "js_String h (JStr s) = Inr s"
| "js_String h (JArr xs) = js_join h xs"
| "js_String h (JObj kvs) =
     (if has_key ''toString'' (JObj kvs) then Inl TypeError else Inr ''[object Object]'')"
| "js_join h [] = Inr []"
| "js_join h [x] = (if is_nullish x then Inr [] else js_String h x)"
| "js_join h (x # y # ys) =
     (case (if is_nullish x then Inr [] else js_String h x) of
        Inl e \<Rightarrow> Inl e
      | Inr s \<Rightarrow>
          (case js_join h (y # ys) of
             Inl e \<Rightarrow> Inl e
           | Inr rest \<Rightarrow> Inr (s @ CHR '','' # rest)))"








subsection \<open>Sample records\<close>











section \<open>Properties\<close>

subsection \<open>Indexed maps\<close>

lemma length_map_idx [simp]: "length (map_idx f i xs) = length xs"
  by (induction xs arbitrary: i) simp_all

lemma nth_map_idx [simp]: "k < length xs \<Longrightarrow> map_idx f i xs ! k = f (xs ! k) (i + k)"
proof (induction xs arbitrary: i k)
  case Nil
  then show ?case by simp
next
  case (Cons x xs)
  then show ?case by (cases k) simp_all
qed

lemma list_all_map_idx:
  "list_all P xs \<Longrightarrow> (\<And>x j. P x \<Longrightarrow> P (f x j)) \<Longrightarrow> list_all P (map_idx f i xs)"
  by (induction xs arbitrary: i) simp_all

subsection \<open>Like toggles\<close>




lemma toggleFeedLike_nth:
  "k < length prev \<Longrightarrow>
   toggleFeedLike index prev ! k =
     (if k \<noteq> index then prev ! k
      else (prev ! k)\<lparr>stats := toggleLikeStatData (stats (prev ! k))\<rparr>)"
  by (simp add: toggleFeedLike_def toggleLikeStatData_def Let_def)

lemma toggleUserLike_nth:
  "k < length prev \<Longrightarrow>
   toggleUserLike index prev ! k =
     (if k \<noteq> index then prev ! k
      else (prev ! k)\<lparr>post_stats := toggleLikeStatData (post_stats (prev ! k))\<rparr>)"
  by (simp add: toggleUserLike_def toggleLikeStatData_def Let_def)

lemma toggleProfileLike_eq: "toggleProfileLike = toggleUserLike"
  by (simp add: fun_eq_iff toggleProfileLike_def toggleUserLike_def)

lemma length_toggleFeedLike [simp]: "length (toggleFeedLike index prev) = length prev"
  by (simp add: toggleFeedLike_def)

lemma length_toggleUserLike [simp]: "length (toggleUserLike index prev) = length prev"
  by (simp add: toggleUserLike_def)


lemma toggleLikeStatData_nonneg: "0 \<le> nullish (likes (toggleLikeStatData s)) 0"
  by (simp add: toggleLikeStatData_def Let_def nullish_def)






subsection \<open>The counters are never negative\<close>



lemma toggleFeedLike_keeps:
  "list_all (\<lambda>p. nonneg_stats (stats p)) feedPosts \<Longrightarrow>
   list_all (\<lambda>p. nonneg_stats (stats p)) (toggleFeedLike i feedPosts)"
  unfolding toggleFeedLike_def
  by (rule list_all_map_idx, assumption) (simp add: nonneg_stats_def nullish_def Let_def)

lemma toggleUserLike_keeps:
  "list_all (\<lambda>p. nonneg_stats (post_stats p)) userPosts \<Longrightarrow>
   list_all (\<lambda>p. nonneg_stats (post_stats p)) (toggleUserLike i userPosts)"
  unfolding toggleUserLike_def
  by (rule list_all_map_idx, assumption) (simp add: nonneg_stats_def nullish_def Let_def)

lemma toggleProfileLike_keeps:
  "list_all (\<lambda>p. nonneg_stats (post_stats p)) userPosts \<Longrightarrow>
   list_all (\<lambda>p. nonneg_stats (post_stats p)) (toggleProfileLike i userPosts)"
  unfolding toggleProfileLike_def
  by (rule list_all_map_idx, assumption) (simp add: nonneg_stats_def nullish_def Let_def)

lemma keeps_map_idx:
  fixes f :: "FeedPost \<Rightarrow> nat \<Rightarrow> FeedPost"
  assumes "list_all (\<lambda>p. nonneg_stats (stats p)) xs"
    and "\<And>x j. nonneg_stats (stats x) \<Longrightarrow> nonneg_stats (stats (f x j))"
  shows "list_all (\<lambda>p. nonneg_stats (stats p)) (map_idx f i xs)"
  by (rule list_all_map_idx [where P = "\<lambda>p. nonneg_stats (stats p)", OF assms(1)]) (rule assms(2))

lemma nonneg_stats_comments_add:
  "nonneg_stats s \<Longrightarrow> nonneg_stats (s\<lparr>comments := Some (nullish (comments s) 0 + 1)\<rparr>)"
  by (simp add: nonneg_stats_def nullish_def split: option.splits)

lemma nonneg_stats_comments_clamp:
  "nonneg_stats s \<Longrightarrow> nonneg_stats (s\<lparr>comments := Some (max 0 k)\<rparr>)"
  by (simp add: nonneg_stats_def nullish_def)

lemma handleFeedReplySend_keeps:
  assumes "list_all (\<lambda>p. nonneg_stats (stats p)) feedPosts"
  shows "list_all (\<lambda>p. nonneg_stats (stats p)) (handleFeedReplySend v input t i feedPosts)"
  unfolding handleFeedReplySend_def Let_def
  by (auto split: option.splits intro!: keeps_map_idx [OF assms] assms
      simp: nonneg_stats_comments_add)

lemma handleDeleteFeedComment_keeps:
  assumes "list_all (\<lambda>p. nonneg_stats (stats p)) feedPosts"
  shows "list_all (\<lambda>p. nonneg_stats (stats p)) (handleDeleteFeedComment i c feedPosts)"
  unfolding handleDeleteFeedComment_def Let_def
  by (auto split: option.splits intro!: keeps_map_idx [OF assms] assms
      simp: nonneg_stats_comments_clamp)

lemma handleDeleteFeedReply_keeps:
  assumes "list_all (\<lambda>p. nonneg_stats (stats p)) feedPosts"
  shows "list_all (\<lambda>p. nonneg_stats (stats p)) (handleDeleteFeedReply i c r feedPosts)"
  unfolding handleDeleteFeedReply_def Let_def
  by (auto split: option.splits intro!: keeps_map_idx [OF assms] assms
      simp: nonneg_stats_comments_clamp)

lemma handleDeleteFeedComment_clamps:
  "i < length feedPosts \<Longrightarrow>
   at_index (nullish (people_comments (feedPosts ! i)) []) c = Some tc \<Longrightarrow>
   comments (stats (handleDeleteFeedComment i c feedPosts ! i)) =
     Some (max 0 (nullish (comments (stats (feedPosts ! i))) 0
                   - (1 + int (length (nullish (replies tc) [])))))"
  by (simp add: handleDeleteFeedComment_def at_index_def Let_def)

lemma handleDeleteFeedReply_clamps:
  "i < length feedPosts \<Longrightarrow>
   at_index (nullish (people_comments (feedPosts ! i)) []) c = Some tc \<Longrightarrow>
   at_index (nullish (replies tc) []) r = Some tr \<Longrightarrow>
   comments (stats (handleDeleteFeedReply i c r feedPosts ! i)) =
     Some (max 0 (nullish (comments (stats (feedPosts ! i))) 0 - 1))"
  by (simp add: handleDeleteFeedReply_def at_index_def Let_def)

lemma statCommentsRemove_nonneg: "0 \<le> statCommentsRemove k v"
  by (simp add: statCommentsRemove_def)

lemma statCommentsAdd_nonneg: "0 \<le> nullish v 0 \<Longrightarrow> 0 \<le> statCommentsAdd v"
  by (simp add: statCommentsAdd_def)



text \<open>
  C9: every operation on the statistics of a post keeps both counters of every post
  non-negative: the like toggles, adding a comment or reply, deleting a comment and
  deleting a reply, on the feed and on the profile. The three decrements clamp at zero
  whatever the counter was before: the counter they write is \<open>max 0 (...)\<close>, in the state
  update and in the update of the stored document (\<open>statCommentsRemove\<close>,
  \<open>toggleLikeStatData\<close>).
\<close>

theorem stats_never_negative:
  "(list_all (\<lambda>p. nonneg_stats (stats p)) feedPosts \<longrightarrow>
      list_all (\<lambda>p. nonneg_stats (stats p)) (toggleFeedLike i feedPosts)
    \<and> list_all (\<lambda>p. nonneg_stats (stats p)) (handleFeedReplySend v input t i feedPosts)
    \<and> list_all (\<lambda>p. nonneg_stats (stats p)) (handleDeleteFeedComment i c feedPosts)
    \<and> list_all (\<lambda>p. nonneg_stats (stats p)) (handleDeleteFeedReply i c r feedPosts))
   \<and> (list_all (\<lambda>p. nonneg_stats (post_stats p)) userPosts \<longrightarrow>
      list_all (\<lambda>p. nonneg_stats (post_stats p)) (toggleUserLike i userPosts)
    \<and> list_all (\<lambda>p. nonneg_stats (post_stats p)) (toggleProfileLike i userPosts))
   \<and> (i < length feedPosts \<longrightarrow>
      0 \<le> nullish (likes (stats (toggleFeedLike i feedPosts ! i))) 0)
   \<and> (i < length userPosts \<longrightarrow>
      0 \<le> nullish (likes (post_stats (toggleUserLike i userPosts ! i))) 0
    \<and> 0 \<le> nullish (likes (post_stats (toggleProfileLike i userPosts ! i))) 0)
   \<and> (i < length feedPosts
      \<and> at_index (nullish (people_comments (feedPosts ! i)) []) c = Some tc \<longrightarrow>
      0 \<le> nullish (comments (stats (handleDeleteFeedComment i c feedPosts ! i))) 0)
   \<and> (i < length feedPosts
      \<and> at_index (nullish (people_comments (feedPosts ! i)) []) c = Some tc
      \<and> at_index (nullish (replies tc) []) r = Some tr \<longrightarrow>
      0 \<le> nullish (comments (stats (handleDeleteFeedReply i c r feedPosts ! i))) 0)
   \<and> 0 \<le> statCommentsRemove k n
   \<and> 0 \<le> nullish (likes (toggleLikeStatData s)) 0
   \<and> (0 \<le> nullish n 0 \<longrightarrow> 0 \<le> statCommentsAdd n)"
proof (intro conjI impI)
  assume "i < length feedPosts"
  then show "0 \<le> nullish (likes (stats (toggleFeedLike i feedPosts ! i))) 0"
    by (simp add: toggleFeedLike_nth toggleLikeStatData_nonneg)
next
  assume "i < length userPosts"
  then show "0 \<le> nullish (likes (post_stats (toggleUserLike i userPosts ! i))) 0"
    by (simp add: toggleUserLike_nth toggleLikeStatData_nonneg)
next
  assume "i < length userPosts"
  then show "0 \<le> nullish (likes (post_stats (toggleProfileLike i userPosts ! i))) 0"
    by (simp add: toggleProfileLike_eq toggleUserLike_nth toggleLikeStatData_nonneg)
next
  assume "i < length feedPosts
      \<and> at_index (nullish (people_comments (feedPosts ! i)) []) c = Some tc"
  then show "0 \<le> nullish (comments (stats (handleDeleteFeedComment i c feedPosts ! i))) 0"
    by (simp add: handleDeleteFeedComment_clamps nullish_def)
next
  assume "i < length feedPosts
      \<and> at_index (nullish (people_comments (feedPosts ! i)) []) c = Some tc
      \<and> at_index (nullish (replies tc) []) r = Some tr"
  then show "0 \<le> nullish (comments (stats (handleDeleteFeedReply i c r feedPosts ! i))) 0"
    by (simp add: handleDeleteFeedReply_clamps [where tc = tc and tr = tr] nullish_def)
qed (simp_all add: toggleFeedLike_keeps handleFeedReplySend_keeps handleDeleteFeedComment_keeps
      handleDeleteFeedReply_keeps toggleUserLike_keeps toggleProfileLike_keeps
      statCommentsRemove_nonneg toggleLikeStatData_nonneg statCommentsAdd_nonneg)

theorem stats_never_negative_witness:
  "list_all (\<lambda>p. nonneg_stats (stats p)) (toggleFeedLike 0 [liked_post, busy_post])
   \<and> list_all (\<lambda>p. nonneg_stats (stats p))
       (handleFeedReplySend sample_viewer (Some '' hello '') (Some 0) 1 [liked_post, busy_post])
   \<and> list_all (\<lambda>p. nonneg_stats (stats p)) (handleDeleteFeedComment 1 0 [liked_post, busy_post])
   \<and> list_all (\<lambda>p. nonneg_stats (stats p)) (handleDeleteFeedReply 1 0 0 [liked_post, busy_post])
   \<and> list_all (\<lambda>p. nonneg_stats (post_stats p)) (toggleUserLike 1 [liked_profile_post, busy_profile_post])
   \<and> 0 \<le> nullish (comments (stats (handleDeleteFeedComment 1 0 [liked_post, busy_post] ! 1))) 0
   \<and> 0 \<le> nullish (comments (stats (handleDeleteFeedReply 1 0 0 [liked_post, busy_post] ! 1))) 0
   \<and> 0 \<le> statCommentsAdd (Some 0)"
proof -
  have feed: "list_all (\<lambda>p. nonneg_stats (stats p)) [liked_post, busy_post]"
    by (simp add: liked_post_def busy_post_def nonneg_stats_def nullish_def)
  have profile: "list_all (\<lambda>p. nonneg_stats (post_stats p)) [liked_profile_post, busy_profile_post]"
    by (simp add: liked_profile_post_def busy_profile_post_def nonneg_stats_def nullish_def)
  have c: "at_index (nullish (people_comments ([liked_post, busy_post] ! 1)) []) 0 =
      Some (hd (the (people_comments busy_post)))"
    by (simp add: at_index_def busy_post_def nullish_def)
  have r: "at_index (nullish (replies (hd (the (people_comments busy_post)))) []) 0 =
      Some (hd (the (replies (hd (the (people_comments busy_post))))))"
    by (simp add: at_index_def busy_post_def nullish_def)
  have a: "list_all (\<lambda>p. nonneg_stats (stats p)) (toggleFeedLike 0 [liked_post, busy_post])"
    using stats_never_negative [of "[liked_post, busy_post]" 0] feed by blast
  have b: "list_all (\<lambda>p. nonneg_stats (stats p))
       (handleFeedReplySend sample_viewer (Some '' hello '') (Some 0) 1 [liked_post, busy_post])
     \<and> list_all (\<lambda>p. nonneg_stats (stats p)) (handleDeleteFeedComment 1 0 [liked_post, busy_post])
     \<and> list_all (\<lambda>p. nonneg_stats (stats p)) (handleDeleteFeedReply 1 0 0 [liked_post, busy_post])
     \<and> list_all (\<lambda>p. nonneg_stats (post_stats p)) (toggleUserLike 1 [liked_profile_post, busy_profile_post])
     \<and> 0 \<le> nullish (comments (stats (handleDeleteFeedComment 1 0 [liked_post, busy_post] ! 1))) 0
     \<and> 0 \<le> nullish (comments (stats (handleDeleteFeedReply 1 0 0 [liked_post, busy_post] ! 1))) 0
     \<and> 0 \<le> statCommentsAdd (Some 0)"
    using stats_never_negative [of "[liked_post, busy_post]" 1 sample_viewer "Some '' hello ''"
        "Some 0" 0 0 "[liked_profile_post, busy_profile_post]"
        "hd (the (people_comments busy_post))"
        "hd (the (replies (hd (the (people_comments busy_post)))))" 0 "Some 0"]
      feed profile c r
    by (simp add: nullish_def)
  from a b show ?thesis by simp
qed

subsection \<open>Opening a conversation\<close>

text \<open>
  C6, as stated, fails when the cached record holds no message: the effect returns before
  it compares anything, and the list on screen stays what it was. Here the cache holds an
  empty record (\<open>m = 0\<close>), the backend's thread has one message (\<open>n = 1\<close>), and the list on
  screen has two (the thread's and one sent locally): two messages remain, not
  \<open>max 0 1 = 1\<close>.
\<close>

theorem load_adopts_longer_counterexample:
  "length (messages empty_record) = 0
   \<and> length (loadNpcChat ''@a'' False (Inr (Some empty_record)) (Some [msg1]) [msg1, msg2])
       \<noteq> max (length (messages empty_record)) (length [msg1])"
  by (simp add: loadNpcChat_def empty_record_def)

text \<open>
  C6 (amended): on opening a conversation (a non-empty key, the load not cancelled), given
  a cached record with \<open>m \<ge> 1\<close> messages and a backend-supplied thread with \<open>n\<close> messages,
  the adopted list is the cached one when \<open>m > n\<close> and the thread otherwise, so it has
  \<open>max m n\<close> messages. A cached record without messages changes nothing: the current list
  stays.
\<close>

theorem load_adopts_longer:
  "(dmKey \<noteq> [] \<and> \<not> cancelled \<and> messages r \<noteq> [] \<longrightarrow>
      loadNpcChat dmKey cancelled (Inr (Some r)) (Some thread) current =
        (if length (messages r) > length thread then messages r else thread)
    \<and> length (loadNpcChat dmKey cancelled (Inr (Some r)) (Some thread) current) =
        max (length (messages r)) (length thread))
   \<and> (messages r = [] \<longrightarrow>
      loadNpcChat dmKey cancelled (Inr (Some r)) (Some thread) current = current)"
  by (auto simp: loadNpcChat_def nullish_def Let_def)

theorem load_adopts_longer_witness:
  "loadNpcChat ''@a'' False (Inr (Some cached_record)) (Some [msg1]) [msg1] = [msg1, msg2]
   \<and> length (loadNpcChat ''@a'' False (Inr (Some cached_record)) (Some [msg1]) [msg1]) = 2
   \<and> loadNpcChat ''@a'' False (Inr (Some empty_record)) (Some [msg1]) [msg1, msg2] = [msg1, msg2]"
proof -
  have "loadNpcChat ''@a'' False (Inr (Some cached_record)) (Some [msg1]) [msg1] = [msg1, msg2]
      \<and> length (loadNpcChat ''@a'' False (Inr (Some cached_record)) (Some [msg1]) [msg1]) = 2"
    using load_adopts_longer [of "''@a''" False cached_record "[msg1]" "[msg1]"]
    by (simp add: cached_record_def)
  moreover have "loadNpcChat ''@a'' False (Inr (Some empty_record)) (Some [msg1]) [msg1, msg2]
      = [msg1, msg2]"
    using load_adopts_longer [of "''@a''" False empty_record "[msg1]" "[msg1, msg2]"]
    by (simp add: empty_record_def)
  ultimately show ?thesis by simp
qed

subsection \<open>Schema Normalizer\<close>

lemma get_prop_truthy_obj: "truthy (get_prop p k) \<Longrightarrow> \<exists>kvs. p = JObj kvs"
  by (cases p) simp_all

lemma get_prop_spread_set:
  "get_prop (spread_set (JObj kvs) k v) k' = (if k' = k then v else get_prop (JObj kvs) k')"
  by (simp add: update_conv')

lemma has_key_spread_set:
  "has_key k' (spread_set (JObj kvs) k v) = (k' = k \<or> has_key k' (JObj kvs))"
  by (auto simp: dom_update)

lemma spread_set_twice:
  "spread_set (spread_set (JObj kvs) k v) k v = spread_set (JObj kvs) k v"
  by (simp add: update_last)

lemma normalizePost_cases:
  "normalizePost p = Inr p' \<Longrightarrow>
   p' = p \<or> (\<exists>kvs. p = JObj kvs \<and> \<not> truthy (get_prop p ''people_comments'')
        \<and> truthy (get_prop p ''People_comments'')
        \<and> p' = spread_set p ''people_comments'' (get_prop p ''People_comments''))"
  by (auto simp: normalizePost_def split: if_splits dest: get_prop_truthy_obj)

lemma normalizePost_not_nullish: "normalizePost p = Inr p' \<Longrightarrow> \<not> is_nullish p'"
  by (cases p) (auto simp: normalizePost_def split: if_splits)

lemma normalizePost_idem: "normalizePost p = Inr p' \<Longrightarrow> normalizePost p' = Inr p'"
proof -
  assume a: "normalizePost p = Inr p'"
  from normalizePost_cases [OF a] show ?thesis
  proof
    assume "p' = p" with a show ?thesis by simp
  next
    assume "\<exists>kvs. p = JObj kvs \<and> \<not> truthy (get_prop p ''people_comments'')
        \<and> truthy (get_prop p ''People_comments'')
        \<and> p' = spread_set p ''people_comments'' (get_prop p ''People_comments'')"
    then obtain kvs where p: "p = JObj kvs"
      and t: "truthy (get_prop p ''People_comments'')"
      and p': "p' = spread_set p ''people_comments'' (get_prop p ''People_comments'')"
      by blast
    have "truthy (get_prop p' ''people_comments'')"
      using t unfolding p' p by (simp add: update_conv')
    then show ?thesis
      unfolding normalizePost_def using p p' by simp
  qed
qed

lemma normalizePost_other_fields:
  "normalizePost p = Inr p' \<Longrightarrow> k \<noteq> ''people_comments'' \<Longrightarrow>
   get_prop p' k = get_prop p k \<and> has_key k p' = has_key k p"
  by (drule normalizePost_cases) (auto simp: update_conv' dom_update)

lemma try_map_length: "try_map f xs = Inr ys \<Longrightarrow> length ys = length xs"
  by (induction xs arbitrary: ys) (auto split: sum.splits)

lemma try_map_nth: "try_map f xs = Inr ys \<Longrightarrow> i < length xs \<Longrightarrow> f (xs ! i) = Inr (ys ! i)"
proof (induction xs arbitrary: ys i)
  case Nil
  then show ?case by simp
next
  case (Cons x xs)
  then show ?case by (cases i) (auto split: sum.splits)
qed

lemma try_map_fixed: "(\<And>y. y \<in> set ys \<Longrightarrow> f y = Inr y) \<Longrightarrow> try_map f ys = Inr ys"
  by (induction ys) simp_all

lemma try_map_total: "(\<And>x. x \<in> set xs \<Longrightarrow> \<exists>y. f x = Inr y) \<Longrightarrow> \<exists>ys. try_map f xs = Inr ys"
proof (induction xs)
  case Nil
  then show ?case by simp
next
  case (Cons x xs)
  then obtain y ys where "f x = Inr y" "try_map f xs = Inr ys" by (meson list.set_intros)
  then show ?case by simp
qed

lemma try_map_normalizePost_idem:
  assumes "try_map normalizePost xs = Inr ys"
  shows "try_map normalizePost ys = Inr ys"
proof (rule try_map_fixed)
  fix y assume "y \<in> set ys"
  then obtain i where i: "i < length ys" and y: "y = ys ! i" by (auto simp: in_set_conv_nth)
  from i try_map_length [OF assms] have "i < length xs" by simp
  from try_map_nth [OF assms this] have "normalizePost (xs ! i) = Inr y" by (simp add: y)
  then show "normalizePost y = Inr y" by (rule normalizePost_idem)
qed

lemma normalizeEchoChamberFeed_cases:
  assumes "normalizeEchoChamberFeed feed = Inr feed1"
  shows "(\<not> truthy (get_prop feed ''posts'') \<and> feed1 = feed)
     \<or> (\<exists>kvs posts posts1. feed = JObj kvs \<and> get_prop feed ''posts'' = JArr posts
          \<and> try_map normalizePost posts = Inr posts1
          \<and> feed1 = spread_set feed ''posts'' (JArr posts1))"
proof (cases "truthy (get_prop feed ''posts'')")
  case False
  with assms show ?thesis by (simp add: normalizeEchoChamberFeed_def split: if_splits)
next
  case True
  then obtain kvs where "feed = JObj kvs" by (auto dest: get_prop_truthy_obj)
  with assms True show ?thesis
    by (auto simp: normalizeEchoChamberFeed_def and_then_def split: if_splits json.splits sum.splits)
qed

lemma normalizeEchoChamberFeed_idem:
  assumes "normalizeEchoChamberFeed feed = Inr feed1"
  shows "normalizeEchoChamberFeed feed1 = Inr feed1"
  using normalizeEchoChamberFeed_cases [OF assms]
proof
  assume "\<not> truthy (get_prop feed ''posts'') \<and> feed1 = feed"
  with assms show ?thesis by simp
next
  assume "\<exists>kvs posts posts1. feed = JObj kvs \<and> get_prop feed ''posts'' = JArr posts
          \<and> try_map normalizePost posts = Inr posts1
          \<and> feed1 = spread_set feed ''posts'' (JArr posts1)"
  then obtain kvs posts posts1 where f: "feed = JObj kvs"
    and m: "try_map normalizePost posts = Inr posts1"
    and f1: "feed1 = spread_set feed ''posts'' (JArr posts1)" by blast
  have g: "get_prop feed1 ''posts'' = JArr posts1"
    unfolding f1 f by (simp add: update_conv')
  have "normalizeEchoChamberFeed feed1 = Inr (spread_set feed1 ''posts'' (JArr posts1))"
    unfolding normalizeEchoChamberFeed_def g
    using try_map_normalizePost_idem [OF m] f f1 by (simp add: and_then_def)
  also have "spread_set feed1 ''posts'' (JArr posts1) = feed1"
    unfolding f1 f by (rule spread_set_twice)
  finally show ?thesis .
qed

lemma normalizePost_total: "\<not> is_nullish p \<Longrightarrow> \<exists>p'. normalizePost p = Inr p'"
  by (simp add: normalizePost_def)

lemma normalizePost_alias:
  assumes "map_of kvs ''People_comments'' = Some (JArr cs)"
    and "\<not> has_key ''people_comments'' (JObj kvs)"
  shows "normalizePost (JObj kvs) = Inr (spread_set (JObj kvs) ''people_comments'' (JArr cs))"
proof -
  from assms(2) have "map_of kvs ''people_comments'' = None"
    by (simp add: map_of_eq_None_iff)
  with assms(1) show ?thesis by (simp add: normalizePost_def)
qed

text \<open>
  C2, as stated, fails: the normalizer copies the entries of \<open>People_comments\<close> to
  \<open>people_comments\<close> with an object spread, which keeps every property of the post, so the
  normalized post of the specification's scenario carries both fields.
\<close>

theorem normalize_alias_counterexample:
  "\<not> has_key ''people_comments'' alias_post
   \<and> get_prop alias_post ''People_comments'' = JArr [JObj [(''author'', JStr ''X''), (''text'', JStr ''t'')]]
   \<and> normalizeEchoChamberFeed alias_feed =
       Inr (JObj [(''viewer_profile'', JObj [(''name'', JStr ''V'')]),
                  (''posts'', JArr [alias_post_normalized])])
   \<and> has_key ''People_comments'' alias_post_normalized
   \<and> has_key ''people_comments'' alias_post_normalized"
  by (simp add: alias_post_def alias_feed_def alias_post_normalized_def
      normalizeEchoChamberFeed_def normalizePost_def and_then_def)

text \<open>
  C2 (amended): for every post of a feed that carries its comments as an array under
  \<open>People_comments\<close> and has no \<open>people_comments\<close> (no post of the feed being \<open>null\<close>),
  \<open>normalizeEchoChamberFeed\<close> returns a feed in which that post has \<open>people_comments\<close> equal
  to exactly those entries, and still has \<open>People_comments\<close> with the same entries: the
  normalized post retains both fields.
\<close>

theorem normalize_alias:
  "feed = JObj fkvs \<and> get_prop feed ''posts'' = JArr posts
     \<and> (\<forall>p \<in> set posts. \<not> is_nullish p)
     \<and> i < length posts \<and> posts ! i = JObj kvs
     \<and> map_of kvs ''People_comments'' = Some (JArr cs)
     \<and> \<not> has_key ''people_comments'' (posts ! i)
   \<longrightarrow> (\<exists>posts1. normalizeEchoChamberFeed feed = Inr (spread_set feed ''posts'' (JArr posts1))
         \<and> length posts1 = length posts
         \<and> get_prop (posts1 ! i) ''people_comments'' = JArr cs
         \<and> get_prop (posts1 ! i) ''People_comments'' = JArr cs
         \<and> has_key ''People_comments'' (posts1 ! i))"
proof
  assume a: "feed = JObj fkvs \<and> get_prop feed ''posts'' = JArr posts
     \<and> (\<forall>p \<in> set posts. \<not> is_nullish p)
     \<and> i < length posts \<and> posts ! i = JObj kvs
     \<and> map_of kvs ''People_comments'' = Some (JArr cs)
     \<and> \<not> has_key ''people_comments'' (posts ! i)"
  then have "\<exists>posts1. try_map normalizePost posts = Inr posts1"
    by (intro try_map_total normalizePost_total) simp
  then obtain posts1 where m: "try_map normalizePost posts = Inr posts1" ..
  from a have g: "get_prop feed ''posts'' = JArr posts" and nn: "\<not> is_nullish feed" by auto
  have r: "normalizeEchoChamberFeed feed = Inr (spread_set feed ''posts'' (JArr posts1))"
    unfolding normalizeEchoChamberFeed_def g using nn m by (simp add: and_then_def)
  from a have il: "i < length posts" and pi: "posts ! i = JObj kvs"
    and pc: "map_of kvs ''People_comments'' = Some (JArr cs)"
    and nk0: "\<not> has_key ''people_comments'' (posts ! i)" by blast+
  from nk0 have nk: "\<not> has_key ''people_comments'' (JObj kvs)" unfolding pi .
  have "normalizePost (posts ! i) = Inr (spread_set (JObj kvs) ''people_comments'' (JArr cs))"
    unfolding pi using pc nk by (rule normalizePost_alias)
  moreover have "normalizePost (posts ! i) = Inr (posts1 ! i)"
    using m il by (rule try_map_nth)
  ultimately have p1: "posts1 ! i = spread_set (JObj kvs) ''people_comments'' (JArr cs)" by simp
  from pc have k: "''People_comments'' \<in> fst ` set kvs"
    by (metis map_of_eq_None_iff option.distinct(1))
  have "get_prop (posts1 ! i) ''people_comments'' = JArr cs
      \<and> get_prop (posts1 ! i) ''People_comments'' = JArr cs
      \<and> has_key ''People_comments'' (posts1 ! i)"
    unfolding p1 using k pc by (simp add: update_conv' dom_update)
  with r try_map_length [OF m] show "\<exists>posts1. normalizeEchoChamberFeed feed = Inr (spread_set feed ''posts'' (JArr posts1))
         \<and> length posts1 = length posts
         \<and> get_prop (posts1 ! i) ''people_comments'' = JArr cs
         \<and> get_prop (posts1 ! i) ''People_comments'' = JArr cs
         \<and> has_key ''People_comments'' (posts1 ! i)"
    by blast
qed

theorem normalize_alias_witness:
  "\<exists>posts1. normalizeEchoChamberFeed alias_feed = Inr (spread_set alias_feed ''posts'' (JArr posts1))
      \<and> length posts1 = 1
      \<and> get_prop (posts1 ! 0) ''people_comments'' = JArr [JObj [(''author'', JStr ''X''), (''text'', JStr ''t'')]]
      \<and> get_prop (posts1 ! 0) ''People_comments'' = JArr [JObj [(''author'', JStr ''X''), (''text'', JStr ''t'')]]
      \<and> has_key ''People_comments'' (posts1 ! 0)"
  using normalize_alias [of alias_feed
      "[(''viewer_profile'', JObj [(''name'', JStr ''V'')]), (''posts'', JArr [alias_post])]"
      "[alias_post]" 0
      "[(''user'', JObj [(''name'', JStr ''A''), (''handle'', JStr ''@a'')]),
        (''body'', JStr ''hi''),
        (''stats'', JObj [(''comments'', JNum 0), (''likes'', JNum 0)]),
        (''People_comments'', JArr [JObj [(''author'', JStr ''X''), (''text'', JStr ''t'')]])]"
      "[JObj [(''author'', JStr ''X''), (''text'', JStr ''t'')]]"]
  by (simp add: alias_feed_def alias_post_def)

text \<open>
  C4: \<open>normalizeEchoChamberFeed\<close> is idempotent: what it returns is returned unchanged by a
  second application. It leaves every property of the feed other than \<open>posts\<close> as it was,
  returns the feed itself when \<open>posts\<close> is absent or falsy, and on every post it
  leaves every property other than \<open>people_comments\<close> as it was (present or absent, and its
  value). It returns a result for every feed object whose \<open>posts\<close> are absent or an array of
  objects.
\<close>

theorem normalize_idempotent:
  "(normalizeEchoChamberFeed feed = Inr feed1 \<longrightarrow>
      normalizeEchoChamberFeed feed1 = Inr feed1
      \<and> (\<forall>k. k \<noteq> ''posts'' \<longrightarrow> get_prop feed1 k = get_prop feed k \<and> has_key k feed1 = has_key k feed)
      \<and> (\<not> truthy (get_prop feed ''posts'') \<longrightarrow> feed1 = feed)
      \<and> (\<forall>posts. get_prop feed ''posts'' = JArr posts \<longrightarrow>
           (\<exists>posts1. get_prop feed1 ''posts'' = JArr posts1 \<and> length posts1 = length posts
             \<and> (\<forall>i k. i < length posts \<and> k \<noteq> ''people_comments'' \<longrightarrow>
                  get_prop (posts1 ! i) k = get_prop (posts ! i) k
                  \<and> has_key k (posts1 ! i) = has_key k (posts ! i)))))
   \<and> ((\<exists>fkvs. feed = JObj fkvs)
       \<and> (get_prop feed ''posts'' = JUndefined
          \<or> (\<exists>posts. get_prop feed ''posts'' = JArr posts \<and> (\<forall>p \<in> set posts. \<exists>kvs. p = JObj kvs)))
      \<longrightarrow> (\<exists>feed1. normalizeEchoChamberFeed feed = Inr feed1))"
proof (intro conjI impI allI)
  assume a: "normalizeEchoChamberFeed feed = Inr feed1"
  then show "normalizeEchoChamberFeed feed1 = Inr feed1" by (rule normalizeEchoChamberFeed_idem)
  from normalizeEchoChamberFeed_cases [OF a]
  show "\<not> truthy (get_prop feed ''posts'') \<Longrightarrow> feed1 = feed" by auto
  {
    fix k :: string assume "k \<noteq> ''posts''"
    with normalizeEchoChamberFeed_cases [OF a]
    show "get_prop feed1 k = get_prop feed k" by (auto simp: update_conv')
  next
    fix k :: string assume "k \<noteq> ''posts''"
    with normalizeEchoChamberFeed_cases [OF a]
    show "has_key k feed1 = has_key k feed" by (auto simp: dom_update)
  next
    fix posts assume g: "get_prop feed ''posts'' = JArr posts"
    with normalizeEchoChamberFeed_cases [OF a]
    obtain kvs posts1 where f: "feed = JObj kvs"
      and m: "try_map normalizePost posts = Inr posts1"
      and f1: "feed1 = spread_set feed ''posts'' (JArr posts1)" by auto
    have "get_prop feed1 ''posts'' = JArr posts1" unfolding f1 f by (simp add: update_conv')
    moreover have "length posts1 = length posts" using m by (rule try_map_length)
    moreover have "\<forall>i k. i < length posts \<and> k \<noteq> ''people_comments'' \<longrightarrow>
        get_prop (posts1 ! i) k = get_prop (posts ! i) k
        \<and> has_key k (posts1 ! i) = has_key k (posts ! i)"
      using try_map_nth [OF m] normalizePost_other_fields by blast
    ultimately show "\<exists>posts1. get_prop feed1 ''posts'' = JArr posts1 \<and> length posts1 = length posts
             \<and> (\<forall>i k. i < length posts \<and> k \<noteq> ''people_comments'' \<longrightarrow>
                  get_prop (posts1 ! i) k = get_prop (posts ! i) k
                  \<and> has_key k (posts1 ! i) = has_key k (posts ! i))"
      by blast
  }
next
  assume b: "(\<exists>fkvs. feed = JObj fkvs)
       \<and> (get_prop feed ''posts'' = JUndefined
          \<or> (\<exists>posts. get_prop feed ''posts'' = JArr posts \<and> (\<forall>p \<in> set posts. \<exists>kvs. p = JObj kvs)))"
  then obtain fkvs where f: "feed = JObj fkvs" by blast
  from b show "\<exists>feed1. normalizeEchoChamberFeed feed = Inr feed1"
  proof (elim conjE disjE exE)
    assume "get_prop feed ''posts'' = JUndefined"
    with f show ?thesis by (simp add: normalizeEchoChamberFeed_def)
  next
    fix posts assume g: "get_prop feed ''posts'' = JArr posts"
      and o: "\<forall>p \<in> set posts. \<exists>kvs. p = JObj kvs"
    have "\<exists>posts1. try_map normalizePost posts = Inr posts1"
    proof (rule try_map_total)
      fix x assume "x \<in> set posts"
      with o obtain kvs where "x = JObj kvs" by blast
      then show "\<exists>y. normalizePost x = Inr y" by (simp add: normalizePost_total)
    qed
    then obtain posts1 where m: "try_map normalizePost posts = Inr posts1" ..
    from f have nn: "\<not> is_nullish feed" by simp
    show ?thesis
      unfolding normalizeEchoChamberFeed_def g using nn m by (simp add: and_then_def)
  qed
qed

theorem normalize_idempotent_witness:
  "normalizeEchoChamberFeed (JObj [(''viewer_profile'', JObj [(''name'', JStr ''V'')]),
                  (''posts'', JArr [alias_post_normalized])]) =
     Inr (JObj [(''viewer_profile'', JObj [(''name'', JStr ''V'')]),
                  (''posts'', JArr [alias_post_normalized])])
   \<and> (\<exists>feed1. normalizeEchoChamberFeed alias_feed = Inr feed1)"
proof -
  have n: "normalizeEchoChamberFeed alias_feed =
       Inr (JObj [(''viewer_profile'', JObj [(''name'', JStr ''V'')]),
                  (''posts'', JArr [alias_post_normalized])])"
    by (simp add: alias_post_def alias_feed_def alias_post_normalized_def
      normalizeEchoChamberFeed_def normalizePost_def and_then_def)
  have t: "(\<exists>fkvs. alias_feed = JObj fkvs)
       \<and> (get_prop alias_feed ''posts'' = JUndefined
          \<or> (\<exists>posts. get_prop alias_feed ''posts'' = JArr posts \<and> (\<forall>p \<in> set posts. \<exists>kvs. p = JObj kvs)))"
    by (simp add: alias_feed_def alias_post_def)
  from normalize_idempotent [of alias_feed "JObj [(''viewer_profile'', JObj [(''name'', JStr ''V'')]),
                  (''posts'', JArr [alias_post_normalized])]"] n t
  show ?thesis by blast
qed

subsection \<open>Structured Document Parser\<close>

text \<open>
  C7: \<open>parseYamlSource\<close> never raises, whatever the two library parsers do on the text: it
  returns the document of the first grammar that accepts the text, in the order YAML,
  strict JSON, JSON with trailing commas stripped (\<open>{}\<close> for a document that is \<open>null\<close> or
  \<open>undefined\<close>), and \<open>{}\<close> when all three raise.
\<close>

theorem parseYamlSource_total:
  "\<exists>doc. parseYamlSource h source = Inr doc
     \<and> doc = (case yaml_parse h source of
          Inr v \<Rightarrow> nullish_or v (JObj [])
        | Inl _ \<Rightarrow>
            (case JSON_parse h source of
               Inr v \<Rightarrow> nullish_or v (JObj [])
             | Inl _ \<Rightarrow>
                 (case JSON_parse h (strip_trailing_commas source) of
                    Inr v \<Rightarrow> nullish_or v (JObj [])
                  | Inl _ \<Rightarrow> JObj [])))"
  by (simp add: parseYamlSource_def parseYaml_def parseStrictJson_def parseRelaxedJson_def
      try_catch_def and_then_def split: sum.splits)

theorem parseYamlSource_total_witness:
  "parseYamlSource json_host broken_text = Inr (JObj [])
   \<and> parseYamlSource json_host trailing_text = Inr (JObj [(''a'', JArr [JNum 1, JNum 2])])"
proof -
  have y1: "json_parse broken_text = Inl SyntaxError" unfolding broken_text_def by code_simp
  have y2: "json_parse (strip_trailing_commas broken_text) = Inl SyntaxError"
    unfolding broken_text_def by code_simp
  have y3: "json_parse trailing_text = Inl SyntaxError" unfolding trailing_text_def by code_simp
  have y4: "json_parse (strip_trailing_commas trailing_text) = Inr (JObj [(''a'', JArr [JNum 1, JNum 2])])"
    unfolding trailing_text_def by code_simp
  from parseYamlSource_total [of json_host broken_text] y1 y2
  have a: "parseYamlSource json_host broken_text = Inr (JObj [])"
    by (simp add: json_host_def)
  from parseYamlSource_total [of json_host trailing_text] y3 y4
  have b: "parseYamlSource json_host trailing_text = Inr (JObj [(''a'', JArr [JNum 1, JNum 2])])"
    by (simp add: json_host_def nullish_or_def)
  from a b show ?thesis ..
qed

lemma length_strip_trailing_commas: "length (strip_trailing_commas t) \<le> length t"
proof (induction t rule: strip_trailing_commas.induct)
  case 1
  then show ?case by simp
next
  case (2 c cs)
  show ?case
  proof (cases "c = CHR '',''")
    case False
    with 2 show ?thesis by simp
  next
    case True
    show ?thesis
    proof (cases "match_closer cs")
      case None
      with True 2 show ?thesis by simp
    next
      case (Some p)
      obtain d rest where p: "p = (d, rest)" by (cases p)
      from Some p have "length rest < length cs" by (auto dest: match_closer_shorter)
      moreover from 2 True Some p have "length (strip_trailing_commas rest) \<le> length rest"
        by simp
      ultimately show ?thesis using True Some p by simp
    qed
  qed
qed

lemma strip_fixed_Cons:
  assumes "strip_trailing_commas (c # cs) = c # cs"
  shows "(c = CHR '','' \<longrightarrow> match_closer cs = None) \<and> strip_trailing_commas cs = cs"
proof (cases "c = CHR '','' \<and> match_closer cs \<noteq> None")
  case False
  with assms show ?thesis by (auto split: option.splits)
next
  case True
  then obtain d rest where m: "match_closer cs = Some (d, rest)" by auto
  then have "length rest < length cs" by (rule match_closer_shorter)
  moreover have "length (strip_trailing_commas rest) \<le> length rest"
    by (rule length_strip_trailing_commas)
  moreover from assms True m have "d # strip_trailing_commas rest = c # cs" by simp
  then have "Suc (length (strip_trailing_commas rest)) = Suc (length cs)"
    by (metis length_Cons)
  ultimately show ?thesis by simp
qed

lemma strip_fixed_suffix:
  "strip_trailing_commas (pre @ s) = pre @ s \<Longrightarrow> strip_trailing_commas s = s"
proof (induction pre)
  case Nil
  then show ?case by simp
next
  case (Cons x pre)
  then show ?case using strip_fixed_Cons [of x "pre @ s"] by simp
qed

lemma closer_not_space: "c = CHR ''}'' \<or> c = CHR '']'' \<Longrightarrow> \<not> is_space c"
  by (auto simp: is_space_def)

lemma match_closer_spaces:
  "\<forall>x \<in> set ws. is_space x \<Longrightarrow> c = CHR ''}'' \<or> c = CHR '']'' \<Longrightarrow>
   match_closer (ws @ c # post) = Some (c, post)"
  by (induction ws) (auto simp: closer_not_space)

lemma match_closer_comma_None:
  "match_closer (pre @ rest) = None \<Longrightarrow> match_closer (pre @ CHR '','' # rest') = None"
proof (induction pre)
  case Nil
  show ?case by (simp add: is_space_def)
next
  case (Cons y ys)
  then show ?case by (auto split: if_splits)
qed

lemma strip_single_trailing_comma:
  assumes fixed: "strip_trailing_commas (pre @ ws @ c # post) = pre @ ws @ c # post"
    and ws: "\<forall>x \<in> set ws. is_space x"
    and c: "c = CHR ''}'' \<or> c = CHR '']''"
  shows "strip_trailing_commas (pre @ CHR '','' # ws @ c # post) = pre @ c # post"
  using fixed
proof (induction pre)
  case Nil
  then have "strip_trailing_commas ((ws @ [c]) @ post) = (ws @ [c]) @ post" by simp
  then have "strip_trailing_commas post = post" by (rule strip_fixed_suffix)
  with match_closer_spaces [OF ws c, of post] show ?case by simp
next
  case (Cons x pre)
  from strip_fixed_Cons [of x "pre @ ws @ c # post"] Cons.prems
  have n: "x = CHR '','' \<longrightarrow> match_closer (pre @ ws @ c # post) = None"
    and f: "strip_trailing_commas (pre @ ws @ c # post) = pre @ ws @ c # post" by simp_all
  from Cons.IH [OF f] have ih: "strip_trailing_commas (pre @ CHR '','' # ws @ c # post) = pre @ c # post" .
  show ?case
  proof (cases "x = CHR '',''")
    case False
    with ih show ?thesis by simp
  next
    case True
    with n have "match_closer (pre @ CHR '','' # ws @ c # post) = None"
      by (auto intro: match_closer_comma_None)
    with True ih show ?thesis by simp
  qed
qed

text \<open>
  C8, as stated, fails: the regular expression works on the raw text, also inside string
  literals. The text \<open>["x,]",]\<close> has a single trailing comma and is strict JSON without it,
  but the pass also removes the comma inside the string: the fallback parses to
  \<open>["x]"]\<close>, the comma-free text to \<open>["x,]"]\<close>.
\<close>

theorem relaxed_json_counterexample:
  "parseRelaxedJson json_host comma_in_string_text = Inr (JArr [JStr ''x]''])
   \<and> parseStrictJson json_host comma_in_string_plain = Inr (JArr [JStr ''x,]''])
   \<and> parseRelaxedJson json_host comma_in_string_text \<noteq> parseStrictJson json_host comma_in_string_plain"
proof -
  have a: "parseRelaxedJson json_host comma_in_string_text = Inr (JArr [JStr ''x]''])"
    unfolding comma_in_string_text_def by code_simp
  have b: "parseStrictJson json_host comma_in_string_plain = Inr (JArr [JStr ''x,]''])"
    unfolding comma_in_string_plain_def by code_simp
  from a b show ?thesis by simp
qed

text \<open>
  C8 (amended): take a text that the pass leaves unchanged, that is, one without a comma
  followed by optional white space and a closing bracket or brace anywhere (strict JSON
  has none outside its string literals), and insert a single comma before a closing
  bracket or brace \<open>c\<close>, with optional white space \<open>ws\<close> between the two. The
  pass then removes exactly that comma and that white space, so the relaxed-JSON fallback
  yields what strict JSON parsing yields for the comma-free text without \<open>ws\<close>; this is the
  parsed value of the comma-free text itself whenever \<open>JSON.parse\<close> does not distinguish
  the two (white space before a closer is insignificant in JSON).
\<close>

theorem relaxed_json_single_comma:
  "strip_trailing_commas (pre @ ws @ c # post) = pre @ ws @ c # post
     \<and> (\<forall>x \<in> set ws. is_space x) \<and> (c = CHR ''}'' \<or> c = CHR '']'')
   \<longrightarrow> strip_trailing_commas (pre @ CHR '','' # ws @ c # post) = pre @ c # post
     \<and> parseRelaxedJson h (pre @ CHR '','' # ws @ c # post) = parseStrictJson h (pre @ c # post)
     \<and> (JSON_parse h (pre @ c # post) = JSON_parse h (pre @ ws @ c # post) \<longrightarrow>
          parseRelaxedJson h (pre @ CHR '','' # ws @ c # post)
            = parseStrictJson h (pre @ ws @ c # post))"
proof
  assume a: "strip_trailing_commas (pre @ ws @ c # post) = pre @ ws @ c # post
     \<and> (\<forall>x \<in> set ws. is_space x) \<and> (c = CHR ''}'' \<or> c = CHR '']'')"
  then have s: "strip_trailing_commas (pre @ CHR '','' # ws @ c # post) = pre @ c # post"
    by (intro strip_single_trailing_comma) simp_all
  then show "strip_trailing_commas (pre @ CHR '','' # ws @ c # post) = pre @ c # post
     \<and> parseRelaxedJson h (pre @ CHR '','' # ws @ c # post) = parseStrictJson h (pre @ c # post)
     \<and> (JSON_parse h (pre @ c # post) = JSON_parse h (pre @ ws @ c # post) \<longrightarrow>
          parseRelaxedJson h (pre @ CHR '','' # ws @ c # post)
            = parseStrictJson h (pre @ ws @ c # post))"
    by (simp add: parseRelaxedJson_def parseStrictJson_def)
qed

theorem relaxed_json_single_comma_witness:
  \<open>parseRelaxedJson json_host trailing_text = parseStrictJson json_host ''{"a": [1, 2 ]}''
   \<and> parseStrictJson json_host ''{"a": [1, 2 ]}'' = Inr (JObj [(''a'', JArr [JNum 1, JNum 2])])
   \<and> strip_trailing_commas trailing_text = ''{"a": [1, 2]}''\<close>
proof -
  have fixed: \<open>strip_trailing_commas (''{"a": [1, 2'' @ '' '' @ CHR '']'' # ''}'')
      = ''{"a": [1, 2'' @ '' '' @ CHR '']'' # ''}''\<close>
    by code_simp
  have ws: "\<forall>x \<in> set '' ''. is_space x" by (simp add: is_space_def)
  have same: \<open>JSON_parse json_host (''{"a": [1, 2'' @ CHR '']'' # ''}'')
      = JSON_parse json_host (''{"a": [1, 2'' @ '' '' @ CHR '']'' # ''}'')\<close>
    unfolding json_host_def by code_simp
  have v: \<open>parseStrictJson json_host ''{"a": [1, 2 ]}'' = Inr (JObj [(''a'', JArr [JNum 1, JNum 2])])\<close>
    by code_simp
  from relaxed_json_single_comma [of \<open>''{"a": [1, 2''\<close> "'' ''" "CHR '']''" "''}''" json_host]
    fixed ws same
  have \<open>strip_trailing_commas (''{"a": [1, 2'' @ CHR '','' # '' '' @ CHR '']'' # ''}'')
        = ''{"a": [1, 2'' @ CHR '']'' # ''}''
      \<and> parseRelaxedJson json_host (''{"a": [1, 2'' @ CHR '','' # '' '' @ CHR '']'' # ''}'')
        = parseStrictJson json_host (''{"a": [1, 2'' @ '' '' @ CHR '']'' # ''}'')\<close>
    by blast
  with v show ?thesis by (simp add: trailing_text_def)
qed

subsection \<open>Variable Store Reader\<close>

lemma try_catch_const: "try_catch m (\<lambda>e. Inr d) = Inr (case m of Inl e \<Rightarrow> d | Inr x \<Rightarrow> x)"
  by (simp add: try_catch_def split: sum.splits)

lemma readMvu_returns: "\<exists>r. readMvu depth h = Inr r"
  unfolding readMvu_def by (simp add: try_catch_const)

lemma readScope_returns: "\<exists>r. readScope depth h getVars scope = Inr r"
  unfolding readScope_def by (simp add: try_catch_const)

lemma readScope_raise_miss: "getVars scope = Inl e \<Longrightarrow> readScope depth h getVars scope = Inr JNull"
  by (simp add: readScope_def try_catch_def and_then_def)

lemma readMvu_raise_miss:
  "Mvu h = Some mvu \<Longrightarrow> getCurrentMessageId h = Some (Inr message_id) \<Longrightarrow>
   getMvuData mvu = Some getData \<Longrightarrow> getData (Message message_id) = Inl e \<Longrightarrow>
   readMvu depth h = Inr JNull"
  by (simp add: readMvu_def try_catch_def and_then_def)

lemma readScopes_returns: "\<exists>r. readScopes depth h getVars scopes = Inr r"
proof (induction scopes)
  case Nil
  show ?case by simp
next
  case (Cons scope scopes)
  obtain r where "readScope depth h getVars scope = Inr r" using readScope_returns by blast
  with Cons show ?case by (simp add: and_then_def)
qed

lemma readScopes_all_miss:
  "(\<And>scope. scope \<in> set scopes \<Longrightarrow> \<exists>r. readScope depth h getVars scope = Inr r \<and> \<not> truthy r) \<Longrightarrow>
   readScopes depth h getVars scopes = Inr JNull"
proof (induction scopes)
  case Nil
  show ?case by simp
next
  case (Cons scope scopes)
  from Cons.prems [of scope] obtain r where "readScope depth h getVars scope = Inr r" "\<not> truthy r"
    by auto
  moreover from Cons have "readScopes depth h getVars scopes = Inr JNull" by simp
  ultimately show ?case by (simp add: and_then_def)
qed

lemma variableScopes_returns:
  assumes "\<forall>e. getCurrentMessageId h \<noteq> Some (Inl e)"
  shows "\<exists>scopes. variableScopes h = Inr scopes"
proof (cases "getCurrentMessageId h")
  case None
  then show ?thesis by (simp add: variableScopes_def)
next
  case (Some outcome)
  with assms obtain message_id where "outcome = Inr message_id" by (cases outcome) auto
  with Some show ?thesis by (simp add: variableScopes_def and_then_def)
qed

lemma readEchoChamberVariables_returns:
  assumes "getVariables h = None \<or> (\<forall>e. getCurrentMessageId h \<noteq> Some (Inl e))"
  shows "\<exists>r. readEchoChamberVariables depth h = Inr r"
proof -
  obtain fromStat where fromStat: "readMvu depth h = Inr fromStat" using readMvu_returns by blast
  show ?thesis
  proof (cases "truthy fromStat")
    case True
    with fromStat show ?thesis by (simp add: readEchoChamberVariables_def and_then_def)
  next
    case False
    show ?thesis
    proof (cases "getVariables h")
      case None
      with fromStat False show ?thesis by (simp add: readEchoChamberVariables_def and_then_def)
    next
      case (Some getVars)
      with assms have "\<forall>e. getCurrentMessageId h \<noteq> Some (Inl e)" by simp
      then obtain scopes where "variableScopes h = Inr scopes"
        using variableScopes_returns by blast
      moreover obtain r where "readScopes depth h getVars scopes = Inr r"
        using readScopes_returns by blast
      ultimately show ?thesis
        using fromStat False Some by (simp add: readEchoChamberVariables_def and_then_def)
    qed
  qed
qed

lemma readEchoChamberVariables_all_miss:
  assumes "readMvu depth h = Inr fromStat" and "\<not> truthy fromStat"
    and "getVariables h = Some getVars" and "variableScopes h = Inr scopes"
    and "\<And>scope. scope \<in> set scopes \<Longrightarrow>
           \<exists>r. readScope depth h getVars scope = Inr r \<and> \<not> truthy r"
  shows "readEchoChamberVariables depth h = Inr JNull"
  using assms(1-4) readScopes_all_miss [of scopes depth h getVars, OF assms(5)]
  by (simp add: readEchoChamberVariables_def and_then_def)

lemma refreshData_null:
  "readEchoChamberVariables depth h = Inr r \<Longrightarrow> \<not> truthy r \<Longrightarrow> refreshData depth h data = Inr data"
  by (simp add: refreshData_def and_then_def)

text \<open>
  What the Reader catches. In every invocation, the block of the structured backend and
  the block of each scope return and never raise; a read of either backend that raises
  makes its block a miss (\<open>null\<close>, and the loop goes on with the next scope), as does an
  exception of the coercion. When the structured backend misses and no scope yields a
  truthy coercion (or there is no generic backend), the Reader returns \<open>null\<close>; and on
  \<open>null\<close>, \<open>refreshData\<close> leaves the state \<open>data\<close> exactly as it was. The Reader as a whole
  returns whenever the generic backend is absent or \<open>getCurrentMessageId()\<close> does not raise.
\<close>

theorem reader_misses:
  "((getVariables h = None \<or> (\<forall>e. getCurrentMessageId h \<noteq> Some (Inl e)))
      \<longrightarrow> (\<exists>r. readEchoChamberVariables depth h = Inr r))
   \<and> (\<exists>r. readMvu depth h = Inr r)
   \<and> (\<exists>r. readScope depth h getVars scope = Inr r)
   \<and> (Mvu h = Some mvu \<and> getCurrentMessageId h = Some (Inr message_id)
        \<and> getMvuData mvu = Some getData \<and> getData (Message message_id) = Inl e
      \<longrightarrow> readMvu depth h = Inr JNull)
   \<and> (getVars scope = Inl e \<longrightarrow>
        readScope depth h getVars scope = Inr JNull
        \<and> readScopes depth h getVars (scope # scopes) = readScopes depth h getVars scopes)
   \<and> (readMvu depth h = Inr fromStat \<and> \<not> truthy fromStat
        \<and> getVariables h = Some getVars \<and> variableScopes h = Inr scopes
        \<and> (\<forall>scope \<in> set scopes. \<exists>r. readScope depth h getVars scope = Inr r \<and> \<not> truthy r)
      \<longrightarrow> readEchoChamberVariables depth h = Inr JNull)
   \<and> (readMvu depth h = Inr fromStat \<and> \<not> truthy fromStat \<and> getVariables h = None
      \<longrightarrow> readEchoChamberVariables depth h = Inr JNull)
   \<and> (readEchoChamberVariables depth h = Inr JNull \<longrightarrow> refreshData depth h data = Inr data)"
proof (intro conjI impI)
  assume "getVariables h = None \<or> (\<forall>e. getCurrentMessageId h \<noteq> Some (Inl e))"
  then show "\<exists>r. readEchoChamberVariables depth h = Inr r"
    by (rule readEchoChamberVariables_returns)
next
  show "\<exists>r. readMvu depth h = Inr r" by (rule readMvu_returns)
next
  show "\<exists>r. readScope depth h getVars scope = Inr r" by (rule readScope_returns)
next
  assume "Mvu h = Some mvu \<and> getCurrentMessageId h = Some (Inr message_id)
        \<and> getMvuData mvu = Some getData \<and> getData (Message message_id) = Inl e"
  then show "readMvu depth h = Inr JNull" by (auto intro: readMvu_raise_miss)
next
  assume "getVars scope = Inl e"
  then show "readScope depth h getVars scope = Inr JNull" by (rule readScope_raise_miss)
next
  assume "getVars scope = Inl e"
  then have "readScope depth h getVars scope = Inr JNull" by (rule readScope_raise_miss)
  then show "readScopes depth h getVars (scope # scopes) = readScopes depth h getVars scopes"
    by (simp add: and_then_def)
next
  assume a: "readMvu depth h = Inr fromStat \<and> \<not> truthy fromStat
        \<and> getVariables h = Some getVars \<and> variableScopes h = Inr scopes
        \<and> (\<forall>scope \<in> set scopes. \<exists>r. readScope depth h getVars scope = Inr r \<and> \<not> truthy r)"
  show "readEchoChamberVariables depth h = Inr JNull"
  proof (rule readEchoChamberVariables_all_miss)
    from a show "readMvu depth h = Inr fromStat" "\<not> truthy fromStat" "getVariables h = Some getVars"
      "variableScopes h = Inr scopes" by blast+
    fix scope assume "scope \<in> set scopes"
    with a show "\<exists>r. readScope depth h getVars scope = Inr r \<and> \<not> truthy r" by blast
  qed
next
  assume "readMvu depth h = Inr fromStat \<and> \<not> truthy fromStat \<and> getVariables h = None"
  then show "readEchoChamberVariables depth h = Inr JNull"
    by (simp add: readEchoChamberVariables_def and_then_def)
next
  assume "readEchoChamberVariables depth h = Inr JNull"
  then show "refreshData depth h data = Inr data" by (simp add: refreshData_null)
qed

lemma readMvu_failing: "readMvu depth failing_host = Inr JNull"
  by (simp add: readMvu_def failing_host_def failing_mvu_def json_host_def try_catch_def and_then_def)

theorem reader_misses_witness:
  "readEchoChamberVariables 10 failing_host = Inr JNull
   \<and> refreshData 10 failing_host (JObj [(''echo_chamber_feed'', alias_feed)])
       = Inr (JObj [(''echo_chamber_feed'', alias_feed)])
   \<and> readScope 10 partly_failing_host (\<lambda>scope. Inl (HostError ''vars'')) Chat = Inr JNull
   \<and> (\<exists>r. readEchoChamberVariables 10 partly_failing_host = Inr r)"
proof -
  note t = reader_misses [where h = failing_host and depth = 10
      and getVars = "\<lambda>scope. Inl (HostError ''vars'')" and fromStat = JNull
      and scopes = "[Message (JNum 7), Chat, Character, Global]"
      and data = "JObj [(''echo_chamber_feed'', alias_feed)]"]
  have g: "getVariables failing_host = Some (\<lambda>scope. Inl (HostError ''vars''))"
    by (simp add: failing_host_def)
  have s: "variableScopes failing_host = Inr [Message (JNum 7), Chat, Character, Global]"
    by (simp add: failing_host_def variableScopes_def and_then_def)
  have m: "\<forall>scope \<in> set [Message (JNum 7), Chat, Character, Global].
      \<exists>r. readScope 10 failing_host (\<lambda>scope. Inl (HostError ''vars'')) scope = Inr r \<and> \<not> truthy r"
    by (simp add: readScope_def try_catch_def and_then_def)
  from t readMvu_failing [of 10] g s m
  have a: "readEchoChamberVariables 10 failing_host = Inr JNull" by simp
  with t have b: "refreshData 10 failing_host (JObj [(''echo_chamber_feed'', alias_feed)])
       = Inr (JObj [(''echo_chamber_feed'', alias_feed)])" by blast
  from reader_misses [where h = partly_failing_host and depth = 10
      and getVars = "\<lambda>scope. Inl (HostError ''vars'')" and scope = Chat
      and e = "HostError ''vars''"]
  have c: "readScope 10 partly_failing_host (\<lambda>scope. Inl (HostError ''vars'')) Chat = Inr JNull
     \<and> (\<exists>r. readEchoChamberVariables 10 partly_failing_host = Inr r)"
    by (simp add: partly_failing_host_def)
  from a b c show ?thesis by simp
qed

text \<open>
  The list of scopes is built before the loop, outside the \<open>try\<close> blocks (line 391): with a
  generic backend present, an exception of \<open>getCurrentMessageId()\<close> there leaves the Reader.
\<close>

lemma reader_message_id_raises:
  assumes "getVariables h = Some getVars" and "getCurrentMessageId h = Some (Inl e)"
  shows "readEchoChamberVariables depth h = Inl e"
proof -
  from assms(2) have "readMvu depth h = Inr JNull"
    by (simp add: readMvu_def try_catch_def and_then_def split: option.splits)
  moreover from assms(2) have "variableScopes h = Inl e"
    by (simp add: variableScopes_def and_then_def)
  ultimately show ?thesis
    using assms(1) by (simp add: readEchoChamberVariables_def and_then_def)
qed

text \<open>
  C5 asks that in every invocation of the Reader a failing access to a backend or scope is
  caught and treated as a miss, that the Reader returns \<open>null\<close> when no scope yields a
  coercion, and that \<open>refreshData\<close> then keeps the state. The code does so for the reads of
  both backends (above), and the block of the structured backend also catches an exception
  of \<open>getCurrentMessageId()\<close> (line 379, inside the \<open>try\<close>). The same call for the message
  scope of the generic backend is outside every \<open>try\<close>: on a host whose
  \<open>getCurrentMessageId\<close> raises and whose \<open>getVariables\<close> exists, the Reader does not return
  \<open>null\<close> but raises, and \<open>refreshData\<close> raises with it.
\<close>

theorem reader_raises_on_message_id:
  "getCurrentMessageId id_failing_host = Some (Inl (HostError ''no message id''))
   \<and> readMvu 10 (id_failing_host\<lparr>Mvu := Some write_failing_mvu\<rparr>) = Inr JNull
   \<and> readEchoChamberVariables 10 id_failing_host = Inl (HostError ''no message id'')
   \<and> refreshData 10 id_failing_host (JObj [(''echo_chamber_feed'', alias_feed)])
       = Inl (HostError ''no message id'')"
  by (simp add: id_failing_host_def json_host_def readMvu_def variableScopes_def
      readEchoChamberVariables_def refreshData_def try_catch_def and_then_def)

subsection \<open>Variable Store Writer\<close>

lemma waitForMvu_returns:
  "snd (waitForMvu h) = Inr () \<and> \<not> list_ex is_generic_call (fst (waitForMvu h))"
  by (simp add: waitForMvu_def run_catch_def run_call_def run_return_def
      split: option.splits sum.splits)

lemma updateMvu_raises:
  assumes "Mvu h = Some mvu" and "getMvuData mvu = Some getData"
    and "getData option = Inl e
      \<or> (getData option = Inr vars \<and> updateWithVars mutate (nullish_or vars (JObj [])) = Inr updated
          \<and> replaceMvuData mvu = Some replace \<and> replace updated option = Inl e)"
  shows "snd (updateMvu h mutate refresh option) = Inl e
    \<and> \<not> list_ex is_generic_call (fst (updateMvu h mutate refresh option))"
  using assms
  by (auto simp: updateMvu_def run_bind_def run_call_def run_lift_def run_return_def)

lemma updateVariables_caught:
  "snd (run_catch (updateVariables h mutate refresh option)
          (\<lambda>error. run_call (Warn ''Failed to update variables:'') (Inr ()))) = Inr ()"
  by (simp add: run_catch_def run_call_def split: sum.splits)

lemma updateVariables_attempt:
  "getVariables h = Some getVars \<Longrightarrow> replaceVariables h = Some replaceVars \<Longrightarrow>
   GetVariables option \<in> set (fst (updateVariables h mutate refresh option))"
  by (simp add: updateVariables_def run_bind_def run_call_def split: sum.splits)

lemma updateVariables_write:
  "getVariables h = Some getVars \<Longrightarrow> replaceVariables h = Some replaceVars \<Longrightarrow>
   getVars option = Inr found \<Longrightarrow>
   updateWithVars mutate (nullish_or found (JObj [])) = Inr written \<Longrightarrow>
   ReplaceVariables written option \<in> set (fst (updateVariables h mutate refresh option))"
  by (simp add: updateVariables_def run_bind_def run_call_def run_lift_def split: sum.splits)

lemma updateVariables_absent:
  "getVariables h = None \<or> replaceVariables h = None \<Longrightarrow>
   updateVariables h mutate refresh option = ([], Inr ())"
  by (auto simp: updateVariables_def run_return_def split: option.splits)

lemma updateStatData_after_failure:
  assumes "messageOption h = Inr option"
    and "snd (updateMvu h mutate refresh option) = Inl e"
  shows "updateStatData h mutate refresh =
    (fst (waitForMvu h) @ fst (updateMvu h mutate refresh option)
       @ [Warn ''Failed to update MVU data:'']
       @ fst (run_catch (updateVariables h mutate refresh option)
               (\<lambda>error. run_call (Warn ''Failed to update variables:'') (Inr ()))),
     Inr ())"
proof -
  have w: "snd (waitForMvu h) = Inr ()" using waitForMvu_returns by blast
  have g: "snd (run_catch (updateVariables h mutate refresh option)
          (\<lambda>error. run_call (Warn ''Failed to update variables:'') (Inr ()))) = Inr ()"
    by (rule updateVariables_caught)
  show ?thesis
    unfolding updateStatData_def
    using assms w g
    by (simp add: run_bind_def run_lift_def run_catch_def [of "updateMvu h mutate refresh option"]
        run_call_def run_return_def)
qed

text \<open>
  C1, as stated, fails: the \<open>catch\<close> of the structured backend's block only logs, and the
  code then runs on into the block of the generic backend. Here the structured backend
  reads and then raises on \<open>replaceMvuData\<close>; the same call goes on to \<open>getVariables\<close> and
  \<open>replaceVariables\<close> and refreshes.
\<close>

theorem writer_no_fallback_counterexample:
  "fst (updateStatData fallback_host set_flag (Inr ())) =
     [WaitGlobalInitialized, GetMvuData (Message (JNum 7)),
      ReplaceMvuData (JObj [(''stat_data'', JObj [(''flag'', JBool True)])]) (Message (JNum 7)),
      Warn ''Failed to update MVU data:'',
      GetVariables (Message (JNum 7)),
      ReplaceVariables (JObj [(''stat_data'', JObj [(''flag'', JBool True)])]) (Message (JNum 7)),
      Refresh]
   \<and> list_ex is_generic_call (fst (updateStatData fallback_host set_flag (Inr ())))"
  by (simp add: updateStatData_def waitForMvu_def updateMvu_def updateVariables_def
      messageOption_def updateWithVars_def fallback_host_def write_failing_mvu_def json_host_def
      set_flag_def run_bind_def run_catch_def run_call_def run_lift_def run_return_def
      and_then_def nullish_or_def lodash_get_def)

text \<open>
  C1 (amended): for every call to \<open>updateStatData\<close> in which the structured backend is
  present but its read or its replace-whole-document write raises, the failure is logged
  (\<open>Failed to update MVU data:\<close>), the call itself does not raise, and the Writer goes on to
  the generic backend within the same call: when \<open>getVariables\<close> and \<open>replaceVariables\<close> are
  both functions it reads the scope through \<open>getVariables\<close> and, when that read and the
  mutation succeed, writes the result through \<open>replaceVariables\<close>; when one of the two is
  missing no generic call is made and the failure is only logged.
\<close>

theorem writer_falls_back:
  "messageOption h = Inr option \<and> Mvu h = Some mvu \<and> getMvuData mvu = Some getData
     \<and> (getData option = Inl e
        \<or> (getData option = Inr vars
            \<and> updateWithVars mutate (nullish_or vars (JObj [])) = Inr updated
            \<and> replaceMvuData mvu = Some replace \<and> replace updated option = Inl e))
   \<longrightarrow> snd (updateStatData h mutate refresh) = Inr ()
     \<and> Warn ''Failed to update MVU data:'' \<in> set (fst (updateStatData h mutate refresh))
     \<and> (getVariables h = Some getVars \<and> replaceVariables h = Some replaceVars \<longrightarrow>
          GetVariables option \<in> set (fst (updateStatData h mutate refresh)))
     \<and> (getVariables h = Some getVars \<and> replaceVariables h = Some replaceVars
          \<and> getVars option = Inr found
          \<and> updateWithVars mutate (nullish_or found (JObj [])) = Inr written \<longrightarrow>
          ReplaceVariables written option \<in> set (fst (updateStatData h mutate refresh)))
     \<and> (getVariables h = None \<or> replaceVariables h = None \<longrightarrow>
          \<not> list_ex is_generic_call (fst (updateStatData h mutate refresh)))"
proof
  assume a: "messageOption h = Inr option \<and> Mvu h = Some mvu \<and> getMvuData mvu = Some getData
     \<and> (getData option = Inl e
        \<or> (getData option = Inr vars
            \<and> updateWithVars mutate (nullish_or vars (JObj [])) = Inr updated
            \<and> replaceMvuData mvu = Some replace \<and> replace updated option = Inl e))"
  then have m: "snd (updateMvu h mutate refresh option) = Inl e
      \<and> \<not> list_ex is_generic_call (fst (updateMvu h mutate refresh option))"
    by (intro updateMvu_raises [of h mvu getData option e vars mutate updated replace]) blast+
  from a m have u: "updateStatData h mutate refresh =
    (fst (waitForMvu h) @ fst (updateMvu h mutate refresh option)
       @ [Warn ''Failed to update MVU data:'']
       @ fst (run_catch (updateVariables h mutate refresh option)
               (\<lambda>error. run_call (Warn ''Failed to update variables:'') (Inr ()))),
     Inr ())"
    by (intro updateStatData_after_failure [of h option mutate refresh e]) blast+
  have 1: "snd (updateStatData h mutate refresh) = Inr ()" by (simp add: u)
  have 2: "Warn ''Failed to update MVU data:'' \<in> set (fst (updateStatData h mutate refresh))"
    by (simp add: u)
  have 3: "GetVariables option \<in> set (fst (updateStatData h mutate refresh))"
    if "getVariables h = Some getVars \<and> replaceVariables h = Some replaceVars"
  proof -
    from that have "GetVariables option \<in> set (fst (updateVariables h mutate refresh option))"
      by (auto intro: updateVariables_attempt)
    then have "GetVariables option \<in> set (fst (run_catch (updateVariables h mutate refresh option)
               (\<lambda>error. run_call (Warn ''Failed to update variables:'') (Inr ()))))"
      by (simp add: run_catch_def split: sum.splits)
    then show ?thesis by (simp add: u)
  qed
  have 5: "ReplaceVariables written option \<in> set (fst (updateStatData h mutate refresh))"
    if "getVariables h = Some getVars \<and> replaceVariables h = Some replaceVars
          \<and> getVars option = Inr found
          \<and> updateWithVars mutate (nullish_or found (JObj [])) = Inr written"
  proof -
    from that have "ReplaceVariables written option
        \<in> set (fst (updateVariables h mutate refresh option))"
      by (auto intro: updateVariables_write)
    then have "ReplaceVariables written option
        \<in> set (fst (run_catch (updateVariables h mutate refresh option)
               (\<lambda>error. run_call (Warn ''Failed to update variables:'') (Inr ()))))"
      by (simp add: run_catch_def split: sum.splits)
    then show ?thesis by (simp add: u)
  qed
  have 4: "\<not> list_ex is_generic_call (fst (updateStatData h mutate refresh))"
    if "getVariables h = None \<or> replaceVariables h = None"
  proof -
    from that have "updateVariables h mutate refresh option = ([], Inr ())"
      by (rule updateVariables_absent)
    then have "fst (run_catch (updateVariables h mutate refresh option)
               (\<lambda>error. run_call (Warn ''Failed to update variables:'') (Inr ()))) = []"
      by (simp add: run_catch_def)
    with m waitForMvu_returns [of h] show ?thesis by (simp add: u)
  qed
  from 1 2 3 4 5 show "snd (updateStatData h mutate refresh) = Inr ()
     \<and> Warn ''Failed to update MVU data:'' \<in> set (fst (updateStatData h mutate refresh))
     \<and> (getVariables h = Some getVars \<and> replaceVariables h = Some replaceVars \<longrightarrow>
          GetVariables option \<in> set (fst (updateStatData h mutate refresh)))
     \<and> (getVariables h = Some getVars \<and> replaceVariables h = Some replaceVars
          \<and> getVars option = Inr found
          \<and> updateWithVars mutate (nullish_or found (JObj [])) = Inr written \<longrightarrow>
          ReplaceVariables written option \<in> set (fst (updateStatData h mutate refresh)))
     \<and> (getVariables h = None \<or> replaceVariables h = None \<longrightarrow>
          \<not> list_ex is_generic_call (fst (updateStatData h mutate refresh)))"
    by blast
qed

theorem writer_falls_back_witness:
  "snd (updateStatData fallback_host set_flag (Inr ())) = Inr ()
   \<and> Warn ''Failed to update MVU data:'' \<in> set (fst (updateStatData fallback_host set_flag (Inr ())))
   \<and> GetVariables (Message (JNum 7)) \<in> set (fst (updateStatData fallback_host set_flag (Inr ())))
   \<and> ReplaceVariables (JObj [(''stat_data'', JObj [(''flag'', JBool True)])]) (Message (JNum 7))
       \<in> set (fst (updateStatData fallback_host set_flag (Inr ())))
   \<and> \<not> list_ex is_generic_call (fst (updateStatData mvu_only_host set_flag (Inr ())))"
proof -
  have n: "updateWithVars set_flag (nullish_or (JObj [(''stat_data'', JObj [])]) (JObj []))
      = Inr (JObj [(''stat_data'', JObj [(''flag'', JBool True)])])"
    by (simp add: updateWithVars_def set_flag_def nullish_or_def lodash_get_def and_then_def)
  have n2: "updateWithVars set_flag (nullish_or (JObj []) (JObj []))
      = Inr (JObj [(''stat_data'', JObj [(''flag'', JBool True)])])"
    by (simp add: updateWithVars_def set_flag_def nullish_or_def lodash_get_def and_then_def)
  have a: "snd (updateStatData fallback_host set_flag (Inr ())) = Inr ()
     \<and> Warn ''Failed to update MVU data:'' \<in> set (fst (updateStatData fallback_host set_flag (Inr ())))
     \<and> GetVariables (Message (JNum 7)) \<in> set (fst (updateStatData fallback_host set_flag (Inr ())))
     \<and> ReplaceVariables (JObj [(''stat_data'', JObj [(''flag'', JBool True)])]) (Message (JNum 7))
       \<in> set (fst (updateStatData fallback_host set_flag (Inr ())))"
    using writer_falls_back [where h = fallback_host and option = "Message (JNum 7)"
        and mvu = write_failing_mvu and getData = "\<lambda>option. Inr (JObj [(''stat_data'', JObj [])])"
        and e = "HostError ''mvu''" and vars = "JObj [(''stat_data'', JObj [])]"
        and mutate = set_flag and updated = "JObj [(''stat_data'', JObj [(''flag'', JBool True)])]"
        and replace = "\<lambda>next option. Inl (HostError ''mvu'')"
        and getVars = "\<lambda>scope. Inr (JObj [])" and replaceVars = "\<lambda>next option. Inr ()"
        and found = "JObj []" and written = "JObj [(''stat_data'', JObj [(''flag'', JBool True)])]"
        and refresh = "Inr ()"] n n2
    by (simp add: fallback_host_def write_failing_mvu_def json_host_def messageOption_def and_then_def)
  have b: "\<not> list_ex is_generic_call (fst (updateStatData mvu_only_host set_flag (Inr ())))"
    using writer_falls_back [where h = mvu_only_host and option = "Message (JNum 7)"
        and mvu = write_failing_mvu and getData = "\<lambda>option. Inr (JObj [(''stat_data'', JObj [])])"
        and e = "HostError ''mvu''" and vars = "JObj [(''stat_data'', JObj [])]"
        and mutate = set_flag and updated = "JObj [(''stat_data'', JObj [(''flag'', JBool True)])]"
        and replace = "\<lambda>next option. Inl (HostError ''mvu'')"
        and refresh = "Inr ()"] n
    by (simp add: mvu_only_host_def write_failing_mvu_def json_host_def messageOption_def and_then_def)
  from a b show ?thesis by simp
qed

subsection \<open>Conversation Cache: import\<close>


















end
